theory Spec2Isabelle
  imports Main "HOL-Library.Word"
begin

section \<open>Strings as the JavaScript code uses them\<close>

text \<open>
  Strings are lists of characters, read as the code units below 256. White space
  is the part of the class of \<open>trim()\<close> and of the regular expression \<open>\s\<close> that
  lies there: tab, line feed, vertical tab, form feed, carriage return, space and
  the no-break space U+00A0. \<open>toLowerCase\<close> folds the ASCII letters; JavaScript
  also folds the letters from U+00C0 to U+00DE, which are left as they are here:
  the server only compares the folded text with ASCII literals, and for these
  comparisons the two agree.
\<close>

definition toLowerChar :: "char \<Rightarrow> char" where
  "toLowerChar c =
     (case map_of (zip ''ABCDEFGHIJKLMNOPQRSTUVWXYZ'' ''abcdefghijklmnopqrstuvwxyz'') c of
        Some l \<Rightarrow> l
      | None \<Rightarrow> c)"

definition toLowerCase :: "string \<Rightarrow> string" where
  "toLowerCase s = map toLowerChar s"

definition isSpace :: "char \<Rightarrow> bool" where
  "isSpace c =
     (c \<in> set [CHR 0x09, CHR 0x0A, CHR 0x0B, CHR 0x0C, CHR 0x0D, CHR '' '', CHR 0xA0])"

fun startsWith :: "string \<Rightarrow> string \<Rightarrow> bool" where
  "startsWith s [] = True"
| "startsWith [] (p # ps) = False"
| "startsWith (c # cs) (p # ps) = (c = p \<and> startsWith cs ps)"

fun includesStr :: "string \<Rightarrow> string \<Rightarrow> bool" where
  "includesStr [] t = (t = [])"
| "includesStr (c # cs) t = (if startsWith (c # cs) t then True else includesStr cs t)"

definition trim :: "string \<Rightarrow> string" where
  "trim s = rev (dropWhile isSpace (rev (dropWhile isSpace s)))"

text \<open>\<open>cleaned.replace(/\s+/g, ' ')\<close>: every maximal run of white space becomes one space.\<close>

function collapseSpaces :: "string \<Rightarrow> string" where
  "collapseSpaces [] = []"
| "collapseSpaces (c # cs) =
     (if isSpace c then CHR '' '' # collapseSpaces (dropWhile isSpace cs)
      else c # collapseSpaces cs)"
  by pat_completeness auto
termination
  by (relation "measure length") (auto simp: length_dropWhile_le less_Suc_eq_le)

text \<open>
  \<open>cleaned.replace(new RegExp(phrase, 'gi'), '')\<close> for a phrase of lower-case
  letters and spaces: scanning from the left, every non-overlapping occurrence of the
  phrase, compared without regard to case, is dropped.
\<close>

function removeAllCI :: "string \<Rightarrow> string \<Rightarrow> string" where
  "removeAllCI phrase [] = []"
| "removeAllCI phrase (c # cs) =
     (if phrase \<noteq> [] \<and> startsWith (toLowerCase (c # cs)) phrase
      then removeAllCI phrase (drop (length phrase) (c # cs))
      else c # removeAllCI phrase cs)"
  by pat_completeness auto
termination
  by (relation "measure (\<lambda>(phrase, s). length s)") auto

section \<open>JavaScript values\<close>

text \<open>
  The values that come back from the remote API (parsed JSON, plus \<open>undefined\<close>
  for an absent field). An object is the list of its own properties; a lookup takes
  the first entry of a key.
\<close>

datatype jsval =
    JUndefined
  | JNull
  | JBool bool
  | JNum int
  | JStr string
  | JArr "jsval list"
  | JObj "(string \<times> jsval) list"

fun truthy :: "jsval \<Rightarrow> bool" where
  "truthy JUndefined = False"
| "truthy JNull = False"
| "truthy (JBool b) = b"
| "truthy (JNum n) = (n \<noteq> 0)"
| "truthy (JStr s) = (s \<noteq> [])"
| "truthy (JArr xs) = True"
| "truthy (JObj kvs) = True"

fun isArray :: "jsval \<Rightarrow> bool" where
  "isArray (JArr xs) = True"
| "isArray v = False"

fun isString :: "jsval \<Rightarrow> bool" where
  "isString (JStr s) = True"
| "isString v = False"

text \<open>
  Reading a named property \<open>v.key\<close> of a value that is neither \<open>null\<close> nor
  \<open>undefined\<close> (the callers guard those two): arrays and strings have
  \<open>length\<close>, objects have their own properties, everything else gives
  \<open>undefined\<close>.
\<close>

fun getProp :: "jsval \<Rightarrow> string \<Rightarrow> jsval" where
  "getProp (JObj kvs) key = (case map_of kvs key of Some v \<Rightarrow> v | None \<Rightarrow> JUndefined)"
| "getProp (JArr xs) key = (if key = ''length'' then JNum (int (length xs)) else JUndefined)"
| "getProp (JStr s) key = (if key = ''length'' then JNum (int (length s)) else JUndefined)"
| "getProp v key = JUndefined"

section \<open>Image Encoder: \<open>createDataUri\<close> and \<open>uploadToReplicateCDN\<close>\<close>

type_synonym byte = "8 word"

definition base64Alphabet :: string where
  "base64Alphabet = ''ABCDEFGHIJKLMNOPQRSTUVWXYZabcdefghijklmnopqrstuvwxyz0123456789+/''"

definition base64Digit :: "nat \<Rightarrow> char" where
  "base64Digit n = base64Alphabet ! (n mod 64)"

text \<open>\<open>buffer.toString('base64')\<close>: three bytes give four digits, padded with \<open>=\<close>.\<close>

fun toBase64 :: "byte list \<Rightarrow> string" where
  "toBase64 [] = []"
| "toBase64 [a] =
     [base64Digit (unat a div 4), base64Digit ((unat a mod 4) * 16), CHR ''='', CHR ''='']"
| "toBase64 [a, b] =
     [base64Digit (unat a div 4),
      base64Digit ((unat a mod 4) * 16 + unat b div 16),
      base64Digit ((unat b mod 16) * 4), CHR ''='']"
| "toBase64 (a # b # c # rest) =
     [base64Digit (unat a div 4),
      base64Digit ((unat a mod 4) * 16 + unat b div 16),
      base64Digit ((unat b mod 16) * 4 + unat c div 64),
      base64Digit (unat c mod 64)] @ toBase64 rest"

text \<open>
  \<open>path.extname\<close> of Node (POSIX flavour): trailing slashes are ignored, the last
  path segment is taken, and the extension runs from the last dot of that segment to
  its end; a segment without a dot, one whose only dot is its first character, and
  the segment \<open>..\<close> have the empty extension.
\<close>

definition lastSegment :: "string \<Rightarrow> string" where
  "lastSegment p =
     rev (takeWhile (\<lambda>c. c \<noteq> CHR ''/'') (dropWhile (\<lambda>c. c = CHR ''/'') (rev p)))"

definition extname :: "string \<Rightarrow> string" where
  "extname p =
     (let seg = lastSegment p;
          ext = rev (takeWhile (\<lambda>c. c \<noteq> CHR ''.'') (rev seg));
          stem = take (length seg - length ext - 1) seg
      in if CHR ''.'' \<notin> set seg then []
         else if stem = [] then []
         else if seg = ''..'' then []
         else CHR ''.'' # ext)"

text \<open>
  The file system as the encoder sees it: \<open>fsPromises.readFile\<close> of a path gives
  its bytes, or throws an error with a message (\<open>Inl\<close>).
\<close>

type_synonym filesystem = "string \<Rightarrow> string + byte list"

definition mimeTypeOf :: "string \<Rightarrow> string" where
  "mimeTypeOf localFilePath =
     (let ext = toLowerCase (extname localFilePath) in
      if ext = ''.jpg'' \<or> ext = ''.jpeg'' then ''image/jpeg''
      else if ext = ''.png'' then ''image/png''
      else if ext = ''.webp'' then ''image/webp''
      else ''application/octet-stream'')"

definition createDataUri :: "filesystem \<Rightarrow> string \<Rightarrow> string + string" where
  "createDataUri fs localFilePath =
     (case fs localFilePath of
        Inl message \<Rightarrow> Inl message
      | Inr fileBuffer \<Rightarrow>
          Inr (''data:'' @ mimeTypeOf localFilePath @ '';base64,'' @ toBase64 fileBuffer))"

definition uploadToReplicateCDN :: "filesystem \<Rightarrow> string \<Rightarrow> string + string" where
  "uploadToReplicateCDN fs filePath =
     (case fs filePath of
        Inl message \<Rightarrow> Inl (''Failed to create data URI: '' @ message)
      | Inr fileBuffer \<Rightarrow>
          Inr (''data:'' @ mimeTypeOf filePath @ '';base64,'' @ toBase64 fileBuffer))"

section \<open>Prompt sanitising\<close>

definition bannedPhrases :: "string list" where
  "bannedPhrases =
     [''nsfw'', ''nude'', ''naked'', ''xxx'', ''porn'', ''explicit'', ''sex'',
      ''erotic'', ''adult content'', ''obscene'', ''sexual'', ''intimate parts'']"

definition qualityTerms :: "string list" where
  "qualityTerms = [''high quality'', ''detailed'', ''high resolution'', ''hd'', ''4k'', ''8k'']"

definition hasQualityTerm :: "string \<Rightarrow> bool" where
  "hasQualityTerm cleaned = list_ex (\<lambda>qualityTerm. includesStr (toLowerCase cleaned) qualityTerm) qualityTerms"

definition sanitizePrompt :: "string \<Rightarrow> string" where
  "sanitizePrompt prompt =
     (if prompt = [] then []
      else
        let cleaned = trim prompt;
            cleaned = collapseSpaces cleaned;
            cleaned = foldl (\<lambda>cleaned phrase. removeAllCI phrase cleaned) cleaned bannedPhrases
        in if hasQualityTerm cleaned then cleaned else cleaned @ '', high quality, detailed'')"

text \<open>
  The head of the \<open>/api/generate-image\<close> handler: a request with no prompt is
  answered with status 400 before anything is sent to the remote API; otherwise the
  prompt that goes into the model input is \<open>sanitizePrompt(prompt)\<close>.
\<close>

definition submittedPrompt :: "string \<Rightarrow> (nat \<times> string) + string" where
  "submittedPrompt prompt =
     (if prompt = [] then Inl (400, ''Prompt is required'')
      else Inr (sanitizePrompt prompt))"

section \<open>Output normalisation of \<open>/api/generate-image\<close>\<close>

datatype generate_error = UnexpectedOutputFormat | NoOutputImages

text \<open>
  The chain of \<open>if\<close>s that fills \<open>imageUrls\<close> from \<open>result.output\<close>, followed
  by the test \<open>!imageUrls.length\<close>. Both \<open>throw\<close>s are \<open>Inl\<close>.
\<close>

definition selectImageUrls :: "string \<Rightarrow> jsval \<Rightarrow> generate_error + jsval" where
  "selectImageUrls engineType output =
     (if engineType = ''character'' then
        Inr (if isArray output then output else JArr [output])
      else if isArray output then Inr output
      else if truthy output \<and> isString output then Inr (JArr [output])
      else if truthy output \<and> truthy (getProp output ''image'') then
        Inr (JArr [getProp output ''image''])
      else if truthy output \<and> truthy (getProp output ''images'') then
        Inr (getProp output ''images'')
      else Inl UnexpectedOutputFormat)"

definition normalizeOutput :: "string \<Rightarrow> jsval \<Rightarrow> generate_error + jsval" where
  "normalizeOutput engineType output =
     (case selectImageUrls engineType output of
        Inl e \<Rightarrow> Inl e
      | Inr imageUrls \<Rightarrow>
          if truthy (getProp imageUrls ''length'') then Inr imageUrls
          else Inl NoOutputImages)"

section \<open>The documented tables\<close>

text \<open>
  The MIME table as the specification words it, on the lower-cased extension:
  jpg and jpeg give image/jpeg, png gives image/png, webp gives image/webp, and
  anything else the generic binary type. It is compared with \<open>mimeTypeOf\<close> below.
\<close>

definition documentedMimeType :: "string \<Rightarrow> string" where
  "documentedMimeType ext =
     (if ext \<in> {''.jpg'', ''.jpeg''} then ''image/jpeg''
      else if ext = ''.png'' then ''image/png''
      else if ext = ''.webp'' then ''image/webp''
      else ''application/octet-stream'')"

section \<open>Prediction Orchestrator: the polling loop of \<open>/api/generate-image\<close>\<close>

text \<open>A prediction as the remote API reports it.\<close>

record prediction =
  pred_id :: string
  pred_status :: string
  pred_output :: jsval
  pred_error :: jsval

text \<open>
  One call of \<open>replicate.predictions.get\<close>: it throws an error with a message, or
  returns the prediction. The remote side is the sequence of the outcomes of the
  calls, numbered from 0 in the order the handler makes them.
\<close>

datatype fetch_result = FetchError string | Fetched prediction

type_synonym remote_api = "nat \<Rightarrow> fetch_result"

definition maxAttempts :: nat where
  "maxAttempts = 300"

definition isTerminal :: "string \<Rightarrow> bool" where
  "isTerminal s = (s = ''succeeded'' \<or> s = ''failed'')"

text \<open>
  How the \<open>while\<close> loop is left: normally, with the last \<open>result\<close>, the value of
  \<open>attempts\<close> and the number of status fetches made; or by the \<open>throw pollingError\<close>
  of the \<open>catch\<close> block.
\<close>

datatype loop_exit = LoopDone prediction nat nat | LoopThrew string nat

text \<open>
  The loop itself. The \<open>continue\<close> in the \<open>catch\<close> block goes back to the loop test
  without passing \<open>attempts++\<close>, so an errored fetch leaves \<open>attempts\<close> as it was.
  The loop may not return: the value \<open>None\<close> stands for that.
\<close>

partial_function (option) pollLoop ::
  "remote_api \<Rightarrow> prediction \<Rightarrow> nat \<Rightarrow> nat \<Rightarrow> loop_exit option"
where
  "pollLoop predictionsGet result attempts calls =
     (if \<not> isTerminal (pred_status result) \<and> attempts < maxAttempts then
        (case predictionsGet calls of
           FetchError message \<Rightarrow>
             if attempts < maxAttempts - 1
             then pollLoop predictionsGet result attempts (calls + 1)
             else Some (LoopThrew message (calls + 1))
         | Fetched r \<Rightarrow> pollLoop predictionsGet r (attempts + 1) (calls + 1))
      else Some (LoopDone result attempts calls))"

text \<open>What the handler does with the way the loop ended.\<close>

datatype polling_outcome =
    PredictionSucceeded prediction
  | PredictionFailed jsval
  | PredictionTimedOut string
  | PollingThrew string

definition afterPolling :: "loop_exit \<Rightarrow> polling_outcome" where
  "afterPolling exit =
     (case exit of
        LoopThrew message calls \<Rightarrow> PollingThrew message
      | LoopDone result attempts calls \<Rightarrow>
          if pred_status result = ''failed'' then
            PredictionFailed
              (if truthy (pred_error result) then pred_error result else JStr ''Unknown error'')
          else if attempts \<ge> maxAttempts \<and> pred_status result \<noteq> ''succeeded'' then
            PredictionTimedOut (pred_status result)
          else PredictionSucceeded result)"

definition pollPrediction :: "remote_api \<Rightarrow> prediction \<Rightarrow> polling_outcome option" where
  "pollPrediction predictionsGet created =
     map_option afterPolling (pollLoop predictionsGet created 0 0)"

section \<open>Result Store\<close>

record user_info =
  user_id :: string
  user_email :: string
  user_name :: string

text \<open>
  An entry of \<open>predictionResults\<close>. A field the object does not have is
  \<open>JUndefined\<close> or \<open>None\<close>; times are milliseconds as \<open>Date.now()\<close> gives them.
\<close>

record stored_result =
  res_status :: string
  res_imageUrl :: jsval
  res_error :: jsval
  res_startTime :: "int option"
  res_completedTime :: "int option"
  res_userInfo :: "user_info option"

text \<open>
  The two maps of the server. A lock is a promise; promises are told apart by the
  order of their creation, which \<open>promiseCount\<close> counts.
\<close>

record store =
  predictionResults :: "string \<rightharpoonup> stored_result"
  predictionLocks :: "string \<rightharpoonup> nat"
  promiseCount :: nat

definition defaultResult :: stored_result where
  "defaultResult =
     \<lparr>res_status = ''processing'', res_imageUrl = JUndefined, res_error = JUndefined, res_startTime = None,
      res_completedTime = None, res_userInfo = None\<rparr>"

text \<open>
  \<open>updatePredictionResult\<close>, called and awaited while no other update of the server
  is under way. An \<open>updateFn\<close> that throws (\<open>Inl\<close>) leaves the entry as it was: the
  \<open>finally\<close> block still resolves the new lock, and nothing reaches the caller.
  The rejection of the \<open>async\<close> executor is handled nowhere; what the runtime does
  with an unhandled rejection once the caller has gone on (Node may end the
  process) is outside this model.
\<close>

definition updatePredictionResult ::
  "store \<Rightarrow> string \<Rightarrow> (stored_result \<Rightarrow> string + stored_result) \<Rightarrow> store"
where
  "updatePredictionResult st predictionId updateFn =
     (let st1 =
            (if predictionLocks st predictionId = None
             then st\<lparr>predictionLocks := (predictionLocks st)(predictionId \<mapsto> promiseCount st),
                     promiseCount := promiseCount st + 1\<rparr>
             else st);
          currentResult =
            (case predictionResults st1 predictionId of Some r \<Rightarrow> r | None \<Rightarrow> defaultResult);
          st2 =
            (case updateFn currentResult of
               Inl thrown \<Rightarrow> st1
             | Inr updatedResult \<Rightarrow>
                 st1\<lparr>predictionResults := (predictionResults st1)(predictionId \<mapsto> updatedResult)\<rparr>)
      in st2\<lparr>predictionLocks := (predictionLocks st2)(predictionId \<mapsto> promiseCount st2),
             promiseCount := promiseCount st2 + 1\<rparr>)"

text \<open>\<open>prediction.output[0]\<close>: reading index 0 of \<open>null\<close> or \<open>undefined\<close> throws.\<close>

fun index0 :: "jsval \<Rightarrow> string + jsval" where
  "index0 JUndefined = Inl ''TypeError: Cannot read properties of undefined''"
| "index0 JNull = Inl ''TypeError: Cannot read properties of null''"
| "index0 (JArr xs) = Inr (case xs of [] \<Rightarrow> JUndefined | x # rest \<Rightarrow> x)"
| "index0 (JStr s) = Inr (case s of [] \<Rightarrow> JUndefined | c # rest \<Rightarrow> JStr [c])"
| "index0 (JObj kvs) = Inr (getProp (JObj kvs) ''0'')"
| "index0 v = Inr JUndefined"

definition completedResult :: "prediction \<Rightarrow> int \<Rightarrow> string + stored_result" where
  "completedResult prediction now =
     (case index0 (pred_output prediction) of
        Inl thrown \<Rightarrow> Inl thrown
      | Inr url \<Rightarrow>
          Inr \<lparr>res_status = ''completed'', res_imageUrl = url, res_error = JUndefined, res_startTime = None,
               res_completedTime = Some now, res_userInfo = None\<rparr>)"

definition failedResult :: "prediction \<Rightarrow> int \<Rightarrow> string + stored_result" where
  "failedResult prediction now =
     Inr \<lparr>res_status = ''failed'', res_imageUrl = JUndefined,
          res_error = (if truthy (pred_error prediction) then pred_error prediction
                   else JStr ''Image generation failed''),
          res_startTime = None, res_completedTime = Some now, res_userInfo = None\<rparr>"

text \<open>
  The clean-up loop at the end of \<open>GET /api/prediction/:id\<close>: an entry goes when its
  \<open>completedTime\<close> is truthy and more than 3600000 ms before \<open>now\<close>, and its lock
  goes with it.
\<close>

definition expired :: "int \<Rightarrow> stored_result \<Rightarrow> bool" where
  "expired now entry =
     (case res_completedTime entry of None \<Rightarrow> False | Some t \<Rightarrow> t \<noteq> 0 \<and> now - t > 3600000)"

definition expiredKey :: "int \<Rightarrow> store \<Rightarrow> string \<Rightarrow> bool" where
  "expiredKey now st key =
     (case predictionResults st key of None \<Rightarrow> False | Some entry \<Rightarrow> expired now entry)"

definition cleanupOldResults :: "int \<Rightarrow> store \<Rightarrow> store" where
  "cleanupOldResults now st =
     st\<lparr>predictionResults :=
           (\<lambda>key. if expiredKey now st key then None else predictionResults st key),
        predictionLocks :=
           (\<lambda>key. if expiredKey now st key then None else predictionLocks st key)\<rparr>"

text \<open>
  \<open>GET /api/prediction/:id\<close>. \<open>predictionsGet\<close> is the remote status fetch (it throws,
  \<open>Inl\<close>, or returns the prediction), \<open>updateTime\<close> and \<open>now\<close> are the two readings of
  the clock, inside the update function and before the clean-up. The handler gives
  its response, the store it leaves, and the list of the ids it fetched remotely.
\<close>

datatype prediction_response =
    NotFound404
  | Failed500 string
  | Ok200 string "stored_result option"

definition getPrediction ::
  "(string \<Rightarrow> string + prediction) \<Rightarrow> int \<Rightarrow> int \<Rightarrow> store \<Rightarrow> string
     \<Rightarrow> prediction_response \<times> store \<times> string list"
where
  "getPrediction predictionsGet updateTime now st predictionId =
     (case predictionResults st predictionId of
        None \<Rightarrow> (NotFound404, st, [])
      | Some result \<Rightarrow>
          if res_status result = ''processing'' then
            (case predictionsGet predictionId of
               Inl message \<Rightarrow> (Failed500 message, st, [predictionId])
             | Inr prediction \<Rightarrow>
                 let st1 =
                   (if pred_status prediction = ''succeeded'' then
                      updatePredictionResult st predictionId (\<lambda>current. completedResult prediction updateTime)
                    else if pred_status prediction = ''failed'' then
                      updatePredictionResult st predictionId (\<lambda>current. failedResult prediction updateTime)
                    else st)
                 in (Ok200 predictionId (predictionResults st1 predictionId), cleanupOldResults now st1, [predictionId]))
          else (Ok200 predictionId (Some result), cleanupOldResults now st, []))"

text \<open>
  A store for the examples: one entry, completed at time 1000, so that it is older
  than the retention window at time 3700000.
\<close>

definition oldEntry :: stored_result where
  "oldEntry =
     \<lparr>res_status = ''completed'', res_imageUrl = JStr ''https://replicate.delivery/out.png'',
      res_error = JUndefined, res_startTime = None, res_completedTime = Some 1000, res_userInfo = None\<rparr>"

definition oldStore :: store where
  "oldStore =
     \<lparr>predictionResults = [''old'' \<mapsto> oldEntry], predictionLocks = [''old'' \<mapsto> 1],
      promiseCount = 2\<rparr>"

section \<open>Remote Image Publisher: \<open>uploadToImageHost\<close> and \<open>getAccessibleImageUrl\<close>\<close>

text \<open>Decimal digits of a number, as a template string prints \<open>Date.now()\<close>.\<close>

definition digitChar :: "nat \<Rightarrow> char" where
  "digitChar n = ''0123456789'' ! (n mod 10)"

fun showNat :: "nat \<Rightarrow> string" where
  "showNat n = (if n < 10 then [digitChar n] else showNat (n div 10) @ [digitChar n])"

declare showNat.simps [simp del]

text \<open>
  The world around one run of \<open>uploadToImageHost\<close>. Every call either throws an
  error with a message (\<open>Inl\<close>) or returns.
  \<^item> \<open>readFile\<close>: the bytes of a local file.
  \<^item> \<open>imgbbPost\<close>: the upload to the primary host, from the base64 payload. A reply
    is reduced to what the code reads of it: \<open>Some url\<close> when
    \<open>response.data.data.url\<close> is there, \<open>None\<close> otherwise (a reply without
    \<open>data\<close>, and a reply without \<open>url\<close>, whose verification request then throws,
    both go on to the secondary host).
  \<^item> \<open>httpHead\<close>: the \<open>HEAD\<close> request that verifies a URL, giving the status code.
  \<^item> \<open>imgcdnPost\<close>: the upload to the secondary host, with \<open>Some url\<close> for
    \<open>imgcdnResponse.data.url\<close>.
\<close>

record host_env =
  readFile :: "string \<Rightarrow> string + byte list"
  imgbbPost :: "string \<Rightarrow> string + string option"
  httpHead :: "string \<Rightarrow> string + nat"
  imgcdnPost :: "byte list \<Rightarrow> string + string option"

text \<open>
  What the publisher hands back: a URL string, or the marker object
  \<open>{ isBase64: true, data: ... }\<close> with the data URI in it.
\<close>

datatype published = Url string | Base64Marker string

definition statusOk :: "string + nat \<Rightarrow> bool" where
  "statusOk reply = (case reply of Inl thrown \<Rightarrow> False | Inr code \<Rightarrow> 200 \<le> code \<and> code < 300)"

text \<open>The first inner \<open>try\<close>: upload to ImgBB and verify the URL it returns.\<close>

definition imgbbAttempt :: "host_env \<Rightarrow> string \<Rightarrow> string option" where
  "imgbbAttempt env base64Image =
     (case imgbbPost env base64Image of
        Inl thrown \<Rightarrow> None
      | Inr None \<Rightarrow> None
      | Inr (Some imageUrl) \<Rightarrow> if statusOk (httpHead env imageUrl) then Some imageUrl else None)"

text \<open>
  The second inner \<open>try\<close>: the alternative host; a URL counts when it is truthy.
  Whatever throws inside this \<open>try\<close>, the building of the form included, is the
  case \<open>Inl\<close> of \<open>imgcdnPost\<close>; a runtime whose \<open>FormData.append\<close> refuses a
  buffer with an options object is a world in which \<open>imgcdnPost\<close> always throws.
\<close>

definition imgcdnAttempt :: "host_env \<Rightarrow> byte list \<Rightarrow> string option" where
  "imgcdnAttempt env fileBuffer =
     (case imgcdnPost env fileBuffer of
        Inl thrown \<Rightarrow> None
      | Inr None \<Rightarrow> None
      | Inr (Some imageUrl) \<Rightarrow> if imageUrl \<noteq> [] then Some imageUrl else None)"

definition uploadToImageHost :: "host_env \<Rightarrow> string \<Rightarrow> string + published" where
  "uploadToImageHost env localFilePath =
     (case readFile env localFilePath of
        Inl message \<Rightarrow> Inl (''Failed to upload image: '' @ message)
      | Inr fileBuffer \<Rightarrow>
          let base64Image = toBase64 fileBuffer in
          (case imgbbAttempt env base64Image of
             Some imageUrl \<Rightarrow> Inr (Url imageUrl)
           | None \<Rightarrow>
               (case imgcdnAttempt env fileBuffer of
                  Some imageUrl \<Rightarrow> Inr (Url imageUrl)
                | None \<Rightarrow> Inr (Base64Marker (''data:image/jpeg;base64,'' @ base64Image)))))"

text \<open>
  The world around \<open>getAccessibleImageUrl\<close>: the worlds of its two uploads (the
  hosts may answer differently the second time), its own verification request, the
  clock, the uploads directory, and the copy and the removal of the temporary file.
\<close>

record publisher_env =
  firstUpload :: host_env
  verifyHead :: "string \<Rightarrow> string + nat"
  uploadsDir :: string
  clock :: nat
  copyFile :: "string \<Rightarrow> string \<Rightarrow> string + unit"
  secondUpload :: host_env
  unlink :: "string \<Rightarrow> string + unit"

definition tempFilePath :: "publisher_env \<Rightarrow> string" where
  "tempFilePath w = uploadsDir w @ ''/reliable_image_'' @ showNat (clock w) @ ''.jpg''"

text \<open>The fallback \<open>try\<close> block: copy to a temporary file, upload that, remove it.\<close>

definition fallbackUpload :: "publisher_env \<Rightarrow> string \<Rightarrow> published \<Rightarrow> published" where
  "fallbackUpload w localImagePath imageUrl =
     (case copyFile w localImagePath (tempFilePath w) of
        Inl thrown \<Rightarrow> imageUrl
      | Inr copied \<Rightarrow>
          (case uploadToImageHost (secondUpload w) (tempFilePath w) of
             Inl thrown \<Rightarrow> imageUrl
           | Inr secondAttemptUrl \<Rightarrow>
               (case unlink w (tempFilePath w) of
                  Inl thrown \<Rightarrow> imageUrl
                | Inr removed \<Rightarrow> secondAttemptUrl)))"

definition getAccessibleImageUrl :: "publisher_env \<Rightarrow> string \<Rightarrow> string + published" where
  "getAccessibleImageUrl w localImagePath =
     (case uploadToImageHost (firstUpload w) localImagePath of
        Inl message \<Rightarrow> Inl message
      | Inr (Base64Marker data) \<Rightarrow> Inr (Base64Marker data)
      | Inr (Url imageUrl) \<Rightarrow>
          if statusOk (verifyHead w imageUrl) then Inr (Url imageUrl)
          else Inr (fallbackUpload w localImagePath (Url imageUrl)))"

text \<open>
  Two worlds for the examples. In \<open>flakyHosts\<close> the file is there, the primary host
  hands out a URL that answers 404, and the secondary host refuses the connection.
  In \<open>missingFile\<close> the local file cannot be read.
\<close>

definition flakyHosts :: host_env where
  "flakyHosts =
     \<lparr>readFile = (\<lambda>path. Inr [0x4D, 0x61, 0x6E]),
      imgbbPost = (\<lambda>payload. Inr (Some ''https://i.ibb.co/KcbnhPJ9/image.jpg'')),
      httpHead = (\<lambda>url. Inr 404),
      imgcdnPost = (\<lambda>bytes. Inl ''connect ECONNREFUSED'')\<rparr>"

definition missingFile :: host_env where
  "missingFile = flakyHosts\<lparr>readFile := (\<lambda>path. Inl ''ENOENT: no such file or directory'')\<rparr>"

definition worldOf :: "host_env \<Rightarrow> publisher_env" where
  "worldOf env =
     \<lparr>firstUpload = env, verifyHead = httpHead env, uploadsDir = ''/app/data/uploads'',
      clock = 1700000000000, copyFile = (\<lambda>source target. Inr ()), secondUpload = env,
      unlink = (\<lambda>path. Inr ())\<rparr>"

section \<open>Thumbnail Archiver: \<open>downloadAndSaveImage\<close>\<close>

record http_reply =
  reply_status :: nat
  reply_data :: "byte list"

text \<open>The local disk: the files there are, by path.\<close>

type_synonym disk = "string \<rightharpoonup> byte list"

text \<open>
  The world around one run of the archiver.
  \<^item> \<open>ensureDirectory\<close>: \<open>ensureThumbnailDirectory()\<close>, which may throw.
  \<^item> \<open>primaryGet k\<close>: the download from \<open>imageUrl\<close> made when \<open>retryCount\<close> is
    \<open>k\<close>. With \<open>validateStatus: false\<close> every status is a reply; \<open>Inl\<close> is a
    network error or a time-out.
  \<^item> \<open>alternativeGet k\<close>: the download from the substituted host name made in the
    same round.
  \<^item> \<open>writeFails\<close>: the message with which \<open>fsPromises.writeFile\<close> throws, if it
    does.
  \<^item> \<open>timestamp\<close>, \<open>randomString\<close>: what \<open>Date.now()\<close> and the random suffix give
    for the file name.
\<close>

record archive_env =
  ensureDirectory :: "string + unit"
  thumbnailDir :: string
  primaryGet :: "nat \<Rightarrow> string + http_reply"
  alternativeGet :: "nat \<Rightarrow> string + http_reply"
  writeFails :: "string option"
  timestamp :: nat
  randomString :: string

text \<open>What the archiver does to the outside, in order.\<close>

datatype archive_event = PrimaryRequest nat | AlternativeRequest nat | Sleep nat

definition maxRetries :: nat where
  "maxRetries = 3"

text \<open>\<open>imageUrl.split('/').pop()\<close>: what follows the last slash.\<close>

definition lastPart :: "string \<Rightarrow> string" where
  "lastPart url = rev (takeWhile (\<lambda>c. c \<noteq> CHR ''/'') (rev url))"

text \<open>
  \<open>fsPromises.access(path.join(THUMBNAIL_DIR, filename))\<close> for a name without a
  slash: the empty name and the dot names are joined to a directory, which is there.
\<close>

definition localFileExists :: "disk \<Rightarrow> string \<Rightarrow> string \<Rightarrow> bool" where
  "localFileExists fs dir filename =
     (if filename \<in> {[], ''.'', ''..''} then True else fs (dir @ ''/'' @ filename) \<noteq> None)"

text \<open>\<open>imageUrl.replace('replicate.delivery', 'replicate.com')\<close>: the first occurrence.\<close>

fun replaceFirst :: "string \<Rightarrow> string \<Rightarrow> string \<Rightarrow> string" where
  "replaceFirst old new [] = []"
| "replaceFirst old new (c # cs) =
     (if startsWith (c # cs) old then new @ drop (length old) (c # cs)
      else c # replaceFirst old new cs)"

text \<open>
  The \<open>catch\<close> block of the download loop up to \<open>retryCount++\<close>: the new value of
  \<open>response\<close>, whether the loop is left by \<open>break\<close>, and the requests made.
\<close>

definition tryAlternative ::
  "archive_env \<Rightarrow> string \<Rightarrow> nat \<Rightarrow> http_reply option
     \<Rightarrow> http_reply option \<times> bool \<times> archive_event list"
where
  "tryAlternative env imageUrl retryCount response =
     (if includesStr imageUrl ''replicate.delivery'' then
        (case alternativeGet env retryCount of
           Inr reply \<Rightarrow> (Some reply, reply_status reply = 200, [AlternativeRequest retryCount])
         | Inl thrown \<Rightarrow> (response, False, [AlternativeRequest retryCount]))
      else (response, False, []))"

text \<open>
  The \<open>while (retryCount < maxRetries)\<close> loop, from the values of \<open>retryCount\<close> and
  \<open>response\<close>: it ends with the \<open>throw\<close> of "Max retries reached" (\<open>Inl\<close>) or with
  the last \<open>response\<close>.
\<close>

function downloadLoop ::
  "archive_env \<Rightarrow> string \<Rightarrow> nat \<Rightarrow> http_reply option \<Rightarrow> archive_event list
     \<Rightarrow> (string + http_reply option) \<times> archive_event list"
where
  "downloadLoop env imageUrl retryCount response trace =
     (if retryCount < maxRetries then
        (case primaryGet env retryCount of
           Inr reply \<Rightarrow>
             if reply_status reply = 200
             then (Inr (Some reply), trace @ [PrimaryRequest retryCount])
             else downloadLoop env imageUrl (retryCount + 1) (Some reply)
                    (trace @ [PrimaryRequest retryCount, Sleep 2000])
         | Inl thrown \<Rightarrow>
             (case tryAlternative env imageUrl retryCount response of
                (response1, broke, requests) \<Rightarrow>
                  if broke then (Inr response1, trace @ PrimaryRequest retryCount # requests)
                  else if retryCount + 1 < maxRetries then
                    downloadLoop env imageUrl (retryCount + 1) response1
                      (trace @ PrimaryRequest retryCount # requests @ [Sleep 2000])
                  else (Inl ''Max retries reached for download'',
                        trace @ PrimaryRequest retryCount # requests)))
      else (Inr response, trace))"
  by pat_completeness auto
termination
  by (relation "measure (\<lambda>(env, imageUrl, retryCount, response, trace). maxRetries - retryCount)")
    auto

declare downloadLoop.simps [simp del]

definition thumbnailName :: "archive_env \<Rightarrow> string" where
  "thumbnailName env = ''thumbnail_'' @ showNat (timestamp env) @ ''_'' @ randomString env @ ''.png''"

text \<open>
  The whole function: its result (\<open>Inl\<close> for a \<open>throw\<close>, \<open>Inr\<close> for the URL it
  returns), the disk it leaves, and what it did to the outside.
\<close>

definition saveDownloaded ::
  "archive_env \<Rightarrow> disk \<Rightarrow> http_reply \<Rightarrow> (string + string) \<times> disk"
where
  "saveDownloaded env fs reply =
     (let filename = thumbnailName env;
          localPath = thumbnailDir env @ ''/'' @ filename
      in case writeFails env of
           Some message \<Rightarrow> (Inl message, fs)
         | None \<Rightarrow>
             let fs1 = fs(localPath \<mapsto> reply_data reply) in
             if length (reply_data reply) = 0
             then (Inl ''File verification failed: File was created but is empty'', fs1)
             else (Inr (''http://localhost:5000/ThumbnailImages/'' @ filename), fs1))"

definition downloadAndSaveImage ::
  "archive_env \<Rightarrow> disk \<Rightarrow> string \<Rightarrow> (string + string) \<times> disk \<times> archive_event list"
where
  "downloadAndSaveImage env fs imageUrl =
     (case ensureDirectory env of
        Inl message \<Rightarrow> (Inl message, fs, [])
      | Inr made \<Rightarrow>
          if includesStr imageUrl ''ThumbnailImages''
             \<and> localFileExists fs (thumbnailDir env) (lastPart imageUrl)
          then (Inr imageUrl, fs, [])
          else
            (case downloadLoop env imageUrl 0 None [] of
               (Inl message, trace) \<Rightarrow> (Inl message, fs, trace)
             | (Inr None, trace) \<Rightarrow> (Inl ''Failed to download image after 3 attempts'', fs, trace)
             | (Inr (Some reply), trace) \<Rightarrow>
                 if reply_status reply \<noteq> 200
                 then (Inl ''Failed to download image after 3 attempts'', fs, trace)
                 else (case saveDownloaded env fs reply of (result, fs1) \<Rightarrow> (result, fs1, trace))))"

text \<open>
  A round of the loop fails when the download gives a status other than 200, or
  throws without the substituted host giving status 200.
\<close>

definition attemptFails :: "archive_env \<Rightarrow> string \<Rightarrow> nat \<Rightarrow> bool" where
  "attemptFails env imageUrl k =
     (case primaryGet env k of
        Inr reply \<Rightarrow> reply_status reply \<noteq> 200
      | Inl thrown \<Rightarrow>
          (case tryAlternative env imageUrl k None of (response1, broke, requests) \<Rightarrow> \<not> broke))"

fun isPrimaryRequest :: "archive_event \<Rightarrow> bool" where
  "isPrimaryRequest (PrimaryRequest k) = True"
| "isPrimaryRequest e = False"

fun isSleep :: "archive_event \<Rightarrow> bool" where
  "isSleep (Sleep ms) = True"
| "isSleep e = False"

text \<open>
  A world for the examples: the delivery host times out twice, with the substituted
  host answering 404 (which throws), and delivers three bytes at the third attempt.
\<close>

definition thirdTimeLucky :: archive_env where
  "thirdTimeLucky =
     \<lparr>ensureDirectory = Inr (), thumbnailDir = ''/app/data/thumbnails'',
      primaryGet = (\<lambda>k. if k < 2 then Inl ''timeout of 30000ms exceeded''
                        else Inr \<lparr>reply_status = 200, reply_data = [0x4D, 0x61, 0x6E]\<rparr>),
      alternativeGet = (\<lambda>k. Inl ''Request failed with status code 404''),
      writeFails = None, timestamp = 1700000000000, randomString = ''k3x9qz''\<rparr>"

text \<open>The same world with the delivery host down for good.\<close>

definition allDown :: archive_env where
  "allDown = thirdTimeLucky\<lparr>primaryGet := (\<lambda>k. Inl ''timeout of 30000ms exceeded'')\<rparr>"

section \<open>The thumbnail metadata file\<close>

text \<open>
  The file \<open>thumbnails.json\<close> is its content, or \<open>None\<close> when it is missing.
  \<open>JSON.parse\<close> and \<open>JSON.stringify\<close> are parameters: \<open>parse\<close> gives \<open>None\<close> where
  \<open>JSON.parse\<close> throws. \<open>writeFile k data\<close> is the \<open>k\<close>-th write of a handler: it
  throws (\<open>Inl\<close>) or leaves some content in the file (\<open>Inr\<close>; on a healthy disk with
  a single writer that content is \<open>data\<close>).
\<close>

type_synonym json_parse = "string \<Rightarrow> jsval option"

type_synonym json_stringify = "jsval \<Rightarrow> string"

type_synonym file_write = "nat \<Rightarrow> string \<Rightarrow> string + string"

datatype json_response = Json nat jsval

text \<open>\<open>JSON.parse(await fsPromises.readFile(THUMBNAILS_FILE, 'utf8'))\<close>.\<close>

definition readThumbnails :: "json_parse \<Rightarrow> string option \<Rightarrow> string + jsval" where
  "readThumbnails parse file =
     (case file of
        None \<Rightarrow> Inl ''ENOENT: no such file or directory''
      | Some data \<Rightarrow>
          (case parse data of None \<Rightarrow> Inl ''SyntaxError'' | Some thumbnails \<Rightarrow> Inr thumbnails))"

definition errorBody :: "string \<Rightarrow> jsval" where
  "errorBody message = JObj [(''error'', JStr message)]"

text \<open>\<open>GET /api/thumbnails\<close>.\<close>

definition getThumbnails :: "json_parse \<Rightarrow> string option \<Rightarrow> json_response" where
  "getThumbnails parse file =
     (case readThumbnails parse file of
        Inl thrown \<Rightarrow> Json 500 (errorBody ''Failed to fetch thumbnails'')
      | Inr thumbnails \<Rightarrow> Json 200 thumbnails)"

text \<open>
  The read at the head of \<open>cleanupThumbnails\<close>: on an error the function returns at
  once (\<open>None\<close>), and the file is not written.
\<close>

definition cleanupThumbnailsRead :: "json_parse \<Rightarrow> string option \<Rightarrow> jsval option" where
  "cleanupThumbnailsRead parse file =
     (case readThumbnails parse file of Inl thrown \<Rightarrow> None | Inr thumbnails \<Rightarrow> Some thumbnails)"

text \<open>The read in \<open>POST /api/thumbnails\<close>: on an error the list starts empty.\<close>

definition postThumbnailsRead :: "json_parse \<Rightarrow> string option \<Rightarrow> jsval" where
  "postThumbnailsRead parse file =
     (case readThumbnails parse file of Inl thrown \<Rightarrow> JArr [] | Inr thumbnails \<Rightarrow> thumbnails)"

text \<open>
  The save loop of \<open>POST /api/thumbnails\<close>: write, read back, parse, up to three
  times; \<open>Inl\<close> is the 500 response after the third failure, \<open>Inr\<close> the content that
  passed the check.
\<close>

function savePostedThumbnails ::
  "json_parse \<Rightarrow> file_write \<Rightarrow> string \<Rightarrow> nat \<Rightarrow> json_response + string"
where
  "savePostedThumbnails parse writeFile data saveRetries =
     (if saveRetries < 3 then
        (case writeFile saveRetries data of
           Inr verification \<Rightarrow>
             (case parse verification of
                Some parsed \<Rightarrow> Inr verification
              | None \<Rightarrow>
                  if saveRetries + 1 \<ge> 3
                  then Inl (Json 500 (errorBody ''Failed to save thumbnail metadata''))
                  else savePostedThumbnails parse writeFile data (saveRetries + 1))
         | Inl thrown \<Rightarrow>
             if saveRetries + 1 \<ge> 3
             then Inl (Json 500 (errorBody ''Failed to save thumbnail metadata''))
             else savePostedThumbnails parse writeFile data (saveRetries + 1))
      else Inr data)"
  by pat_completeness auto
termination
  by (relation "measure (\<lambda>(parse, writeFile, data, saveRetries). 3 - saveRetries)") auto

declare savePostedThumbnails.simps [simp del]

text \<open>
  \<open>DELETE /api/thumbnails/:id\<close>: the response and the file it leaves. The filter
  throws on a value that is not a list and on an element that is \<open>null\<close>.
\<close>

fun isNullish :: "jsval \<Rightarrow> bool" where
  "isNullish JNull = True"
| "isNullish JUndefined = True"
| "isNullish v = False"

definition deleteThumbnail ::
  "json_parse \<Rightarrow> json_stringify \<Rightarrow> file_write \<Rightarrow> string option \<Rightarrow> string
     \<Rightarrow> json_response \<times> string option"
where
  "deleteThumbnail parse stringify writeFile file thumbnailUrl =
     (case readThumbnails parse file of
        Inl thrown \<Rightarrow> (Json 500 (errorBody ''Failed to delete thumbnail''), file)
      | Inr (JArr thumbnails) \<Rightarrow>
          if list_ex isNullish thumbnails
          then (Json 500 (errorBody ''Failed to delete thumbnail''), file)
          else
            (case writeFile 0
                    (stringify (JArr (filter (\<lambda>t. getProp t ''url'' \<noteq> JStr thumbnailUrl)
                                        thumbnails))) of
               Inl thrown \<Rightarrow> (Json 500 (errorBody ''Failed to delete thumbnail''), file)
             | Inr content \<Rightarrow>
                 (Json 200 (JObj [(''message'', JStr ''Thumbnail deleted successfully'')]),
                  Some content))
      | Inr other \<Rightarrow> (Json 500 (errorBody ''Failed to delete thumbnail''), file))"

section \<open>\<open>updatePredictionResult\<close> on the event loop\<close>

text \<open>
  Two calls of \<open>updatePredictionResult\<close> can be under way at once: the function is
  \<open>async\<close> and gives up control at each of its three \<open>await\<close>s. JavaScript runs one
  piece of code at a time and keeps the continuations that are ready in a queue
  (the microtask queue), first in, first out; a continuation that waits for a
  pending promise is kept with that promise and joins the queue when the promise is
  resolved. This section models exactly that.

  An update function is what it computes from the current entry and the number of
  turns of the queue it takes before its result is there: 0 for a function that
  returns its result at once (as every update function of the server does), \<open>n\<close>
  for an \<open>async\<close> function that awaits \<open>n\<close> times on the way.
\<close>

record update_fn =
  turns :: nat
  compute :: "stored_result \<Rightarrow> string + stored_result"

text \<open>
  The continuations of a call, which is told apart by its number:
  \<^item> \<open>AfterLock\<close>: what follows \<open>await lock\<close>;
  \<^item> \<open>AfterUpdateFn\<close>: what follows \<open>await updateFn(currentResult)\<close> inside the
    executor of \<open>newLock\<close>, with the \<open>currentResult\<close> that was read and the turns
    the update function still takes;
  \<^item> \<open>AfterNewLock\<close>: what follows \<open>await newLock\<close>, the return of the call.
\<close>

datatype job =
    AfterLock nat string update_fn
  | AfterUpdateFn nat string nat stored_result update_fn
  | AfterNewLock nat

datatype store_event =
    UpdateFnCalled nat stored_result
  | ResultStored nat stored_result
  | UpdateReturned nat

record event_loop = store +
  fulfilled :: "nat \<Rightarrow> bool"
  reactions :: "nat \<Rightarrow> job list"
  microtasks :: "job list"
  history :: "store_event list"

definition newPromise :: "bool \<Rightarrow> event_loop \<Rightarrow> nat \<times> event_loop" where
  "newPromise isFulfilled s =
     (promiseCount s,
      s\<lparr>promiseCount := promiseCount s + 1,
        fulfilled := (fulfilled s)(promiseCount s := isFulfilled),
        reactions := (reactions s)(promiseCount s := [])\<rparr>)"

definition awaitPromise :: "nat \<Rightarrow> job \<Rightarrow> event_loop \<Rightarrow> event_loop" where
  "awaitPromise p continuation s =
     (if fulfilled s p then s\<lparr>microtasks := microtasks s @ [continuation]\<rparr>
      else s\<lparr>reactions := (reactions s)(p := reactions s p @ [continuation])\<rparr>)"

definition resolvePromise :: "nat \<Rightarrow> event_loop \<Rightarrow> event_loop" where
  "resolvePromise p s =
     s\<lparr>fulfilled := (fulfilled s)(p := True),
       microtasks := microtasks s @ reactions s p,
       reactions := (reactions s)(p := [])\<rparr>"

text \<open>
  The call itself runs up to \<open>await lock\<close>: it makes a resolved lock when the id has
  none, reads the lock of the id, and waits for it.
\<close>

definition callUpdate :: "nat \<Rightarrow> string \<Rightarrow> update_fn \<Rightarrow> event_loop \<Rightarrow> event_loop" where
  "callUpdate caller predictionId updateFn s =
     (let s1 =
            (if predictionLocks s predictionId = None then
               (case newPromise True s of
                  (p, s') \<Rightarrow> s'\<lparr>predictionLocks := (predictionLocks s')(predictionId \<mapsto> p)\<rparr>)
             else s)
      in case predictionLocks s1 predictionId of
           Some lock \<Rightarrow> awaitPromise lock (AfterLock caller predictionId updateFn) s1
         | None \<Rightarrow> s1)"

text \<open>
  One continuation, run until it gives up control again.
  \<^item> After \<open>await lock\<close>: \<open>new Promise\<close> runs its executor at once, which reads
    \<open>currentResult\<close>, calls \<open>updateFn\<close> and waits for its result; then the new lock
    is stored and waited for.
  \<^item> After the update function: while it still takes turns, the continuation goes
    to the back of the queue; then the result is stored (unless the function threw)
    and \<open>resolve()\<close> releases the new lock.
\<close>

fun runJob :: "job \<Rightarrow> event_loop \<Rightarrow> event_loop" where
  "runJob (AfterLock caller predictionId updateFn) s =
     (case newPromise False s of
        (newLock, s1) \<Rightarrow>
          let currentResult =
                (case predictionResults s1 predictionId of
                   Some r \<Rightarrow> r
                 | None \<Rightarrow> defaultResult);
              s2 = s1\<lparr>history := history s1 @ [UpdateFnCalled caller currentResult],
                      microtasks := microtasks s1
                        @ [AfterUpdateFn caller predictionId newLock currentResult updateFn]\<rparr>;
              s3 = s2\<lparr>predictionLocks := (predictionLocks s2)(predictionId \<mapsto> newLock)\<rparr>
          in awaitPromise newLock (AfterNewLock caller) s3)"
| "runJob (AfterUpdateFn caller predictionId newLock currentResult updateFn) s =
     (if turns updateFn > 0 then
        s\<lparr>microtasks := microtasks s
             @ [AfterUpdateFn caller predictionId newLock currentResult
                  (updateFn\<lparr>turns := turns updateFn - 1\<rparr>)]\<rparr>
      else
        resolvePromise newLock
          (case compute updateFn currentResult of
             Inl thrown \<Rightarrow> s
           | Inr updatedResult \<Rightarrow>
               s\<lparr>predictionResults := (predictionResults s)(predictionId \<mapsto> updatedResult),
                 history := history s @ [ResultStored caller updatedResult]\<rparr>))"
| "runJob (AfterNewLock caller) s = s\<lparr>history := history s @ [UpdateReturned caller]\<rparr>"

text \<open>
  The event loop runs the queue until it is empty. \<open>None\<close> stands for a queue that
  never empties.
\<close>

partial_function (option) drain :: "event_loop \<Rightarrow> event_loop option" where
  "drain s =
     (case microtasks s of
        [] \<Rightarrow> Some s
      | job # rest \<Rightarrow> drain (runJob job (s\<lparr>microtasks := rest\<rparr>)))"

text \<open>The loop at rest on a store: every promise made so far is resolved.\<close>

definition idle :: "store \<Rightarrow> event_loop" where
  "idle st =
     \<lparr>predictionResults = predictionResults st, predictionLocks = predictionLocks st,
      promiseCount = promiseCount st, fulfilled = (\<lambda>p. True), reactions = (\<lambda>p. []),
      microtasks = [], history = []\<rparr>"

definition storeOf :: "event_loop \<Rightarrow> store" where
  "storeOf s =
     \<lparr>predictionResults = predictionResults s, predictionLocks = predictionLocks s,
      promiseCount = promiseCount s\<rparr>"

text \<open>
  The scenario of the specification's test: update A takes longer than update B,
  both are for the same id, A is issued first and B right after it, before control
  goes back to the event loop. A sets the image URL of the entry and B its status;
  each keeps the rest of the entry as it finds it.
\<close>

definition emptyStore :: store where
  "emptyStore = \<lparr>predictionResults = Map.empty, predictionLocks = Map.empty, promiseCount = 0\<rparr>"

definition updateA :: update_fn where
  "updateA =
     \<lparr>turns = 2,
      compute = (\<lambda>current. Inr (current\<lparr>res_imageUrl := JStr ''https://replicate.delivery/out.png''\<rparr>))\<rparr>"

definition updateB :: update_fn where
  "updateB = \<lparr>turns = 0, compute = (\<lambda>current. Inr (current\<lparr>res_status := ''completed''\<rparr>))\<rparr>"

definition twoConcurrentUpdates :: "event_loop option" where
  "twoConcurrentUpdates =
     drain (callUpdate 2 ''job1'' updateB (callUpdate 1 ''job1'' updateA (idle emptyStore)))"

section \<open>Properties of the Image Encoder\<close>

lemma lastSegment_of_filename:
  assumes "CHR ''/'' \<notin> set name" "name \<noteq> []" "dir = [] \<or> last dir = CHR ''/''"
  shows "lastSegment (dir @ name) = name"
proof -
  have hd: "hd (rev name) \<noteq> CHR ''/''"
    using assms(1,2) by (metis hd_rev last_in_set)
  have nonempty: "rev name \<noteq> []" using assms(2) by simp
  have drop: "dropWhile (\<lambda>c. c = CHR ''/'') (rev name @ rev dir) = rev name @ rev dir"
    using hd nonempty by (cases "rev name") auto
  have tk: "takeWhile (\<lambda>c. c \<noteq> CHR ''/'') (rev dir) = []"
    using assms(3) by (cases dir rule: rev_cases) auto
  have "takeWhile (\<lambda>c. c \<noteq> CHR ''/'') (rev name @ rev dir) =
          rev name @ takeWhile (\<lambda>c. c \<noteq> CHR ''/'') (rev dir)"
    using assms(1) by (intro takeWhile_append2) auto
  then have "takeWhile (\<lambda>c. c \<noteq> CHR ''/'') (rev name @ rev dir) = rev name"
    using tk by simp
  then show ?thesis by (simp add: lastSegment_def drop)
qed

text \<open>
  What \<open>extname\<close> gives on an ordinary file name: for a path that ends in
  \<open>stem.e\<close>, with a non-empty stem and no further dot in \<open>e\<close>, the extension is
  \<open>.e\<close>.
\<close>

lemma extname_of_filename:
  assumes "stem \<noteq> []" "CHR ''/'' \<notin> set stem" "CHR ''/'' \<notin> set e" "CHR ''.'' \<notin> set e"
    "dir = [] \<or> last dir = CHR ''/''" "stem @ ''.'' @ e \<noteq> ''..''"
  shows "extname (dir @ stem @ ''.'' @ e) = ''.'' @ e"
proof -
  let ?seg = "stem @ ''.'' @ e"
  have seg: "lastSegment (dir @ ?seg) = ?seg"
    using assms(2,3,5) by (intro lastSegment_of_filename) auto
  have "takeWhile (\<lambda>c. c \<noteq> CHR ''.'') (rev e @ CHR ''.'' # rev stem) =
          rev e @ takeWhile (\<lambda>c. c \<noteq> CHR ''.'') (CHR ''.'' # rev stem)"
    using assms(4) by (intro takeWhile_append2) auto
  then have ext: "rev (takeWhile (\<lambda>c. c \<noteq> CHR ''.'') (rev ?seg)) = e"
    by simp
  show ?thesis
    unfolding extname_def seg Let_def ext using assms(1,6) by simp
qed

text \<open>
  So for a file \<open>stem.e\<close> in any directory the MIME type depends on \<open>e\<close> alone,
  without regard to case.
\<close>

lemma mimeTypeOf_filename:
  assumes "stem \<noteq> []" "CHR ''/'' \<notin> set stem" "CHR ''/'' \<notin> set e" "CHR ''.'' \<notin> set e"
    "dir = [] \<or> last dir = CHR ''/''" "stem @ ''.'' @ e \<noteq> ''..''"
  shows "mimeTypeOf (dir @ stem @ ''.'' @ e) = documentedMimeType (''.'' @ toLowerCase e)"
proof -
  have "toLowerCase (''.'' @ e) = ''.'' @ toLowerCase e"
    by (simp add: toLowerCase_def toLowerChar_def)
  then show ?thesis
    unfolding mimeTypeOf_def extname_of_filename [OF assms] documentedMimeType_def Let_def
    by simp
qed

text \<open>
  Claim C8. For every local file path whose file can be read, \<open>createDataUri\<close>
  returns the data URI made of the MIME type that the documented table gives for the
  lower-cased extension of the path (image/jpeg for .jpg and .jpeg, image/png for
  .png, image/webp for .webp, application/octet-stream otherwise) and of the base64
  encoding of the file's bytes; \<open>uploadToReplicateCDN\<close> returns the same.
\<close>

theorem encoder_mime_selection:
  "fs p = Inr fileBuffer \<Longrightarrow>
     createDataUri fs p =
       Inr (''data:'' @ documentedMimeType (toLowerCase (extname p)) @ '';base64,''
            @ toBase64 fileBuffer)
   \<and> uploadToReplicateCDN fs p = createDataUri fs p"
  by (simp add: createDataUri_def uploadToReplicateCDN_def mimeTypeOf_def
      documentedMimeType_def Let_def)

theorem encoder_mime_selection_witness:
  "createDataUri (\<lambda>p. Inr [0x4D, 0x61, 0x6E]) ''/data/uploads/photo.JPG''
     = Inr ''data:image/jpeg;base64,TWFu''
   \<and> uploadToReplicateCDN (\<lambda>p. Inr [0x4D, 0x61, 0x6E]) ''/data/uploads/photo.JPG''
     = Inr ''data:image/jpeg;base64,TWFu''"
  using encoder_mime_selection
    [of "\<lambda>p. Inr [0x4D, 0x61, 0x6E]" "''/data/uploads/photo.JPG''" "[0x4D, 0x61, 0x6E]"]
  by (simp add: documentedMimeType_def extname_def lastSegment_def toLowerCase_def
      toLowerChar_def base64Digit_def base64Alphabet_def)

section \<open>Properties of prompt sanitising\<close>

lemma startsWith_append: "startsWith s t \<Longrightarrow> startsWith (s @ r) t"
  by (induction s t rule: startsWith.induct) auto

lemma includesStr_append_right: "includesStr r t \<Longrightarrow> includesStr (s @ r) t"
  by (induction s) auto

lemma hasQualityTerm_suffix: "hasQualityTerm (cleaned @ '', high quality, detailed'')"
proof -
  have "includesStr (toLowerCase '', high quality, detailed'') ''high quality''"
    by (simp add: toLowerCase_def toLowerChar_def)
  then have "includesStr (toLowerCase (cleaned @ '', high quality, detailed'')) ''high quality''"
    unfolding toLowerCase_def map_append by (rule includesStr_append_right)
  then show ?thesis by (simp add: hasQualityTerm_def qualityTerms_def)
qed

text \<open>
  Without a prompt \<open>sanitizePrompt\<close> returns the empty string, which has no quality
  term; the handler answers such a request with 400 and submits nothing.
\<close>

lemma sanitizePrompt_empty:
  "sanitizePrompt [] = [] \<and> \<not> hasQualityTerm [] \<and> submittedPrompt [] = Inl (400, ''Prompt is required'')"
  by (simp add: sanitizePrompt_def hasQualityTerm_def qualityTerms_def toLowerCase_def
      submittedPrompt_def)

text \<open>
  Claim C9. Whenever \<open>/api/generate-image\<close> gets as far as submitting a prompt (the
  request had one), the submitted prompt contains, without regard to case, at least
  one of the quality terms 'high quality', 'detailed', 'high resolution', 'hd', '4k',
  '8k'.
\<close>

theorem sanitized_prompt_has_quality_term:
  "submittedPrompt prompt = Inr cleanPrompt \<Longrightarrow> hasQualityTerm cleanPrompt"
  by (auto simp: submittedPrompt_def sanitizePrompt_def Let_def hasQualityTerm_suffix
      split: if_splits)

theorem sanitized_prompt_has_quality_term_witness:
  "submittedPrompt ''A red car''
     = Inr ''A red car, high quality, detailed''
   \<and> hasQualityTerm ''A red car, high quality, detailed''"
proof -
  have e: "submittedPrompt ''A red car''
             = Inr ''A red car, high quality, detailed''"
    by code_simp
  from sanitized_prompt_has_quality_term [OF e] e show ?thesis by simp
qed

section \<open>Properties of the output normalisation\<close>

text \<open>
  For the engines other than \<open>character\<close>, and for a list from any engine, the
  normalisation treats the shapes as follows.
\<close>

lemma normalize_array:
  "normalizeOutput engineType (JArr xs) = (if xs = [] then Inl NoOutputImages else Inr (JArr xs))"
  by (simp add: normalizeOutput_def selectImageUrls_def)

lemma normalize_string:
  "engineType \<noteq> ''character'' \<Longrightarrow>
   normalizeOutput engineType (JStr s) =
     (if s = [] then Inl UnexpectedOutputFormat else Inr (JArr [JStr s]))"
  by (simp add: normalizeOutput_def selectImageUrls_def)

lemma normalize_object_image:
  "engineType \<noteq> ''character'' \<Longrightarrow> truthy (getProp (JObj kvs) ''image'') \<Longrightarrow>
   normalizeOutput engineType (JObj kvs) = Inr (JArr [getProp (JObj kvs) ''image''])"
  by (simp add: normalizeOutput_def selectImageUrls_def)

lemma normalize_object_images:
  "engineType \<noteq> ''character'' \<Longrightarrow> \<not> truthy (getProp (JObj kvs) ''image'') \<Longrightarrow>
   getProp (JObj kvs) ''images'' = JArr ys \<Longrightarrow>
   normalizeOutput engineType (JObj kvs) = (if ys = [] then Inl NoOutputImages else Inr (JArr ys))"
  by (simp add: normalizeOutput_def selectImageUrls_def)

lemma normalize_other:
  "engineType \<noteq> ''character'' \<Longrightarrow> \<not> isArray output \<Longrightarrow>
   \<not> (truthy output \<and> isString output) \<Longrightarrow>
   \<not> truthy (getProp output ''image'') \<Longrightarrow> \<not> truthy (getProp output ''images'') \<Longrightarrow>
   normalizeOutput engineType output = Inl UnexpectedOutputFormat"
  by (simp add: normalizeOutput_def selectImageUrls_def)

text \<open>
  The branch of the engine \<open>character\<close> has no case for an unexpected shape: it
  wraps whatever is not a list, and the wrapped value passes the test
  \<open>!imageUrls.length\<close> because the list has one element. An object that carries an
  \<open>image\<close> field is wrapped whole, and its field is not taken out.
\<close>

lemma normalize_character:
  "\<not> isArray output \<Longrightarrow> normalizeOutput ''character'' output = Inr (JArr [output])"
  by (simp add: normalizeOutput_def selectImageUrls_def)

lemma character_image_object_not_unpacked:
  "normalizeOutput ''character'' (JObj [(''image'', JStr ''https://replicate.delivery/out.png'')])
     = Inr (JArr [JObj [(''image'', JStr ''https://replicate.delivery/out.png'')]])"
  by (simp add: normalizeOutput_def selectImageUrls_def)

text \<open>
  The branch for an \<open>images\<close> field takes the field as it is. A field that is a
  string is not a list of references, yet it has a length and is returned as the
  result.
\<close>

lemma images_string_not_rejected:
  "normalizeOutput ''standard'' (JObj [(''images'', JStr ''abc'')]) = Inr (JStr ''abc'')"
  by (simp add: normalizeOutput_def selectImageUrls_def)

text \<open>
  Claim C4, at the input where the code departs from it: the engine is
  \<open>character\<close> and the prediction has succeeded with the output \<open>null\<close>. The claim
  makes every output that is not a reference, a list of references or an object with
  an \<open>image\<close> or \<open>images\<close> field an error with no output produced, and the branch
  of the other engines does throw "Unexpected output format" on \<open>null\<close>
  (\<open>normalize_other\<close>). The branch of \<open>character\<close> returns the one-element list
  \<open>[null]\<close> as a success.
\<close>

theorem character_output_not_rejected:
  "normalizeOutput ''character'' JNull = Inr (JArr [JNull])"
  by (simp add: normalizeOutput_def selectImageUrls_def)

section \<open>Properties of the polling loop\<close>

text \<open>
  When no status fetch errors, the loop returns, after at most \<open>maxAttempts\<close>
  fetches counted from \<open>attempts = 0\<close>.
\<close>

lemma pollLoop_without_errors:
  assumes "\<forall>k. \<exists>p. predictionsGet k = Fetched p"
  shows "\<exists>result' attempts' n. pollLoop predictionsGet result attempts calls
            = Some (LoopDone result' attempts' (calls + n)) \<and> attempts + n \<le> max attempts maxAttempts"
proof (induction "maxAttempts - attempts" arbitrary: result attempts calls)
  case 0
  then show ?case
    by (subst pollLoop.simps) (auto intro!: exI[of _ 0])
next
  case (Suc d)
  show ?case
  proof (cases "isTerminal (pred_status result)")
    case True
    then show ?thesis by (subst pollLoop.simps) (auto intro!: exI[of _ 0])
  next
    case False
    from assms obtain p where p: "predictionsGet calls = Fetched p" by blast
    from Suc(2) have lt: "attempts < maxAttempts" and d: "d = maxAttempts - (attempts + 1)" by auto
    from Suc(1) [OF d, of p "calls + 1"] obtain result' attempts' n where
      rec: "pollLoop predictionsGet p (attempts + 1) (calls + 1) = Some (LoopDone result' attempts' (calls + 1 + n))"
      and bound: "attempts + 1 + n \<le> max (attempts + 1) maxAttempts" by blast
    have "pollLoop predictionsGet result attempts calls = Some (LoopDone result' attempts' (calls + (n + 1)))"
      using False lt p rec by (subst pollLoop.simps) (simp add: add.commute add.left_commute)
    moreover have "attempts + (n + 1) \<le> max attempts maxAttempts" using bound lt by auto
    ultimately show ?thesis by blast
  qed
qed

text \<open>
  Once the status is terminal, or \<open>attempts\<close> has reached \<open>maxAttempts\<close>, no further
  fetch is made.
\<close>

lemma pollLoop_stops:
  "isTerminal (pred_status result) \<or> attempts \<ge> maxAttempts \<Longrightarrow>
   pollLoop predictionsGet result attempts calls = Some (LoopDone result attempts calls)"
  by (subst pollLoop.simps) auto

text \<open>
  An error of the fetch that would be attempt number \<open>maxAttempts\<close> leaves the loop by
  the \<open>throw\<close>.
\<close>

lemma pollLoop_error_on_last_attempt:
  "\<not> isTerminal (pred_status result) \<Longrightarrow> predictionsGet calls = FetchError message \<Longrightarrow>
   pollLoop predictionsGet result (maxAttempts - 1) calls = Some (LoopThrew message (calls + 1))"
  by (subst pollLoop.simps) (simp add: maxAttempts_def)

text \<open>
  While every status fetch errors and \<open>attempts\<close> is below \<open>maxAttempts - 1\<close>, the
  loop goes round without changing \<open>attempts\<close>: it cannot return.
\<close>

lemma pollLoop_errors_forever:
  assumes returns: "pollLoop predictionsGet result attempts calls = Some exit"
    and errs: "\<forall>k. \<exists>message. predictionsGet k = FetchError message"
    and running: "\<not> isTerminal (pred_status result)"
    and few: "attempts < maxAttempts - 1"
  shows False
proof -
  have "(\<forall>k. \<exists>message. predictionsGet k = FetchError message) \<longrightarrow>
        \<not> isTerminal (pred_status result) \<longrightarrow> attempts < maxAttempts - 1 \<longrightarrow> False"
  proof (rule pollLoop.raw_induct
      [where P = "\<lambda>g r a c e. (\<forall>k. \<exists>message. g k = FetchError message) \<longrightarrow>
                     \<not> isTerminal (pred_status r) \<longrightarrow> a < maxAttempts - 1 \<longrightarrow> False",
       OF _ returns], goal_cases)
    case (1 loop g r a c e)
    show ?case
    proof (intro impI)
      assume g: "\<forall>k. \<exists>message. g k = FetchError message"
        and r: "\<not> isTerminal (pred_status r)"
        and a: "a < maxAttempts - 1"
      from g obtain message where "g c = FetchError message" by blast
      moreover from a have "a < maxAttempts" by simp
      ultimately have "loop g r a (c + 1) = Some e"
        using 1(2) r a by simp
      from 1(1) [OF this] g r a show False by blast
    qed
  qed
  with errs running few show False by blast
qed

text \<open>
  Claim C1, at the input where the code departs from it: the prediction is created
  with status \<open>starting\<close> and every call of \<open>replicate.predictions.get\<close> throws.
  The polling never returns, so the request is never reported as timed out.
\<close>

theorem polling_never_returns_when_every_fetch_errors:
  "pollPrediction (\<lambda>k. FetchError ''socket hang up'')
     \<lparr>pred_id = ''p1'', pred_status = ''starting'', pred_output = JUndefined,
      pred_error = JUndefined\<rparr> = None"
proof (cases "pollLoop (\<lambda>k. FetchError ''socket hang up'')
     \<lparr>pred_id = ''p1'', pred_status = ''starting'', pred_output = JUndefined,
      pred_error = JUndefined\<rparr> 0 0")
  case None
  then show ?thesis by (simp add: pollPrediction_def)
next
  case (Some exit)
  have False
    by (rule pollLoop_errors_forever [OF Some]) (simp_all add: isTerminal_def maxAttempts_def)
  then show ?thesis ..
qed

section \<open>Properties of the Result Store\<close>

text \<open>
  Claim C10. A status query for an id that has no entry in the store is answered
  with 404 and leaves the store as it was (no entry and no lock is created), and no
  remote status fetch is made.
\<close>

theorem unknown_prediction_is_not_found:
  "predictionResults st predictionId = None \<Longrightarrow>
   getPrediction predictionsGet updateTime now st predictionId = (NotFound404, st, [])"
  by (simp add: getPrediction_def)

theorem unknown_prediction_is_not_found_witness:
  "getPrediction (\<lambda>i. Inl ''unreachable'') 5 6
     \<lparr>predictionResults = Map.empty, predictionLocks = Map.empty, promiseCount = 0\<rparr> ''p9''
   = (NotFound404,
      \<lparr>predictionResults = Map.empty, predictionLocks = Map.empty, promiseCount = 0\<rparr>, [])"
  using unknown_prediction_is_not_found
    [of "\<lparr>predictionResults = Map.empty, predictionLocks = Map.empty, promiseCount = 0\<rparr>"
        "''p9''" "\<lambda>i. Inl ''unreachable''" 5 6]
  by simp

lemma cleanup_leaves_no_expired:
  "predictionResults (cleanupOldResults now st) key = Some entry \<Longrightarrow> \<not> expired now entry"
  by (auto simp: cleanupOldResults_def expiredKey_def split: if_splits)

lemma cleanup_removes_lock:
  "predictionResults st key \<noteq> None \<Longrightarrow> predictionResults (cleanupOldResults now st) key = None \<Longrightarrow>
   predictionLocks (cleanupOldResults now st) key = None"
  by (auto simp: cleanupOldResults_def expiredKey_def split: if_splits)

lemma update_keeps_entries:
  "predictionResults st key \<noteq> None \<Longrightarrow>
   predictionResults (updatePredictionResult st predictionId updateFn) key \<noteq> None"
  by (auto simp: updatePredictionResult_def Let_def split: sum.splits)

lemma update_keeps_other_entries:
  "key \<noteq> predictionId \<Longrightarrow>
   predictionResults (updatePredictionResult st predictionId updateFn) key = predictionResults st key"
  by (auto simp: updatePredictionResult_def Let_def split: sum.splits)

lemma getPrediction_ok_cleanup:
  assumes "getPrediction predictionsGet updateTime now st predictionId
             = (Ok200 predictionId r, st', fetched)"
  shows "\<exists>st1. st' = cleanupOldResults now st1
           \<and> (\<forall>key. predictionResults st key \<noteq> None \<longrightarrow> predictionResults st1 key \<noteq> None)"
proof (cases "predictionResults st predictionId")
  case None
  with assms show ?thesis by (simp add: getPrediction_def)
next
  case (Some result)
  show ?thesis
  proof (cases "res_status result = ''processing''")
    case False
    with Some assms have "st' = cleanupOldResults now st" by (simp add: getPrediction_def)
    then show ?thesis by blast
  next
    case True
    show ?thesis
    proof (cases "predictionsGet predictionId")
      case (Inl message)
      with Some True assms show ?thesis by (simp add: getPrediction_def)
    next
      case (Inr prediction)
      define st1 where "st1 =
        (if pred_status prediction = ''succeeded'' then
           updatePredictionResult st predictionId (\<lambda>current. completedResult prediction updateTime)
         else if pred_status prediction = ''failed'' then
           updatePredictionResult st predictionId (\<lambda>current. failedResult prediction updateTime)
         else st)"
      from Some True Inr assms have "st' = cleanupOldResults now st1"
        by (simp add: getPrediction_def st1_def Let_def)
      moreover have "predictionResults st1 key \<noteq> None" if "predictionResults st key \<noteq> None" for key
        unfolding st1_def using update_keeps_entries [OF that] that by (simp del: not_None_eq)
      ultimately show ?thesis by blast
    qed
  qed
qed

text \<open>
  Claim C6, as the code has it. The claim as written fails: a write through
  \<open>updatePredictionResult\<close> evicts nothing, and neither does a status query that
  ends in 404. At time 3700000 the entry of \<open>oldStore\<close> is older than the
  retention window and is still there after either.
\<close>

theorem update_does_not_evict:
  "expired 3700000 oldEntry
   \<and> predictionResults (updatePredictionResult oldStore ''new'' (\<lambda>current. Inr current)) ''old'' = Some oldEntry
   \<and> getPrediction (\<lambda>i. Inl ''unreachable'') 3700000 3700000 oldStore ''unknown'' = (NotFound404, oldStore, [])"
  by (simp add: expired_def oldEntry_def oldStore_def updatePredictionResult_def Let_def getPrediction_def)

text \<open>
  Claim C6, amended. A status query that finds its id in the store and is answered
  with 200 leaves no entry whose \<open>completedTime\<close> is set and more than 3600000 ms
  before the time of the query; every entry that it removed has lost its lock as
  well.
\<close>

theorem status_query_evicts_expired:
  assumes "getPrediction predictionsGet updateTime now st predictionId
             = (Ok200 predictionId r, st', fetched)"
  shows "(\<forall>key entry. predictionResults st' key = Some entry \<longrightarrow> \<not> expired now entry)
       \<and> (\<forall>key. predictionResults st key \<noteq> None \<and> predictionResults st' key = None \<longrightarrow>
               predictionLocks st' key = None)"
proof -
  from getPrediction_ok_cleanup [OF assms] obtain st1 where st': "st' = cleanupOldResults now st1"
    and kept: "\<And>key. predictionResults st key \<noteq> None \<Longrightarrow> predictionResults st1 key \<noteq> None"
    by blast
  show ?thesis
    unfolding st' using cleanup_leaves_no_expired cleanup_removes_lock kept by blast
qed

theorem status_query_evicts_expired_witness:
  "getPrediction (\<lambda>i. Inl ''unreachable'') 3700000 3700000 oldStore ''old''
     = (Ok200 ''old'' (Some oldEntry),
        cleanupOldResults 3700000 oldStore, [])
   \<and> predictionResults (cleanupOldResults 3700000 oldStore) ''old'' = None
   \<and> predictionLocks (cleanupOldResults 3700000 oldStore) ''old'' = None"
proof -
  have e: "getPrediction (\<lambda>i. Inl ''unreachable'') 3700000 3700000 oldStore ''old''
     = (Ok200 ''old'' (Some oldEntry), cleanupOldResults 3700000 oldStore, [])"
    by (simp add: getPrediction_def oldStore_def oldEntry_def)
  have p: "predictionResults oldStore ''old'' \<noteq> None" by (simp add: oldStore_def)
  have x: "expired 3700000 oldEntry" by (simp add: expired_def oldEntry_def)
  have k: "predictionResults (cleanupOldResults 3700000 oldStore) ''old'' = None
           \<or> predictionResults (cleanupOldResults 3700000 oldStore) ''old'' = Some oldEntry"
    by (simp add: cleanupOldResults_def oldStore_def)
  from status_query_evicts_expired [OF e] p x k e show ?thesis
    by auto
qed

section \<open>Properties of the Remote Image Publisher\<close>

lemma uploadToImageHost_readable:
  "readFile env path = Inr fileBuffer \<Longrightarrow> \<exists>result. uploadToImageHost env path = Inr result"
  by (simp add: uploadToImageHost_def Let_def split: option.splits)

lemma uploadToImageHost_all_hosts_fail:
  "readFile env path = Inr fileBuffer \<Longrightarrow> imgbbAttempt env (toBase64 fileBuffer) = None \<Longrightarrow>
   imgcdnAttempt env fileBuffer = None \<Longrightarrow>
   uploadToImageHost env path = Inr (Base64Marker (''data:image/jpeg;base64,'' @ toBase64 fileBuffer))"
  by (simp add: uploadToImageHost_def Let_def)

lemma uploadToImageHost_unreadable:
  "readFile env path = Inl message \<Longrightarrow>
   uploadToImageHost env path = Inl (''Failed to upload image: '' @ message)"
  by (simp add: uploadToImageHost_def)

text \<open>
  Claim C3, as the code has it. The claim as written fails for a local file that
  cannot be read: \<open>uploadToImageHost\<close> reads the file before it tries any host,
  and its outer \<open>catch\<close> throws "Failed to upload image", which
  \<open>getAccessibleImageUrl\<close> throws on.
\<close>

theorem publisher_raises_on_unreadable_file:
  "getAccessibleImageUrl (worldOf missingFile) ''/app/data/uploads/car.png''
     = Inl ''Failed to upload image: ENOENT: no such file or directory''"
  by (simp add: getAccessibleImageUrl_def uploadToImageHost_def worldOf_def missingFile_def
      flakyHosts_def)

text \<open>
  Claim C3, amended. For every local file path whose file can be read, the
  publisher does not raise: it returns a URL or the embedded-image marker. When both
  hosting attempts of its first upload fail (the primary host throws, gives no URL,
  or gives a URL that fails the verification; the secondary host throws or gives no
  URL), the result is the marker that carries the base64 encoding of the file.
\<close>

theorem publisher_never_raises_on_readable_file:
  assumes "readFile (firstUpload w) localImagePath = Inr fileBuffer"
  shows "(\<exists>result. getAccessibleImageUrl w localImagePath = Inr result)
       \<and> (imgbbAttempt (firstUpload w) (toBase64 fileBuffer) = None
            \<and> imgcdnAttempt (firstUpload w) fileBuffer = None \<longrightarrow>
          getAccessibleImageUrl w localImagePath
            = Inr (Base64Marker (''data:image/jpeg;base64,'' @ toBase64 fileBuffer)))"
proof -
  from uploadToImageHost_readable [OF assms] obtain first
    where first: "uploadToImageHost (firstUpload w) localImagePath = Inr first" by blast
  have "\<exists>result. getAccessibleImageUrl w localImagePath = Inr result"
    by (cases first) (simp_all add: getAccessibleImageUrl_def first)
  moreover have "getAccessibleImageUrl w localImagePath
            = Inr (Base64Marker (''data:image/jpeg;base64,'' @ toBase64 fileBuffer))"
    if "imgbbAttempt (firstUpload w) (toBase64 fileBuffer) = None"
      and "imgcdnAttempt (firstUpload w) fileBuffer = None"
    using uploadToImageHost_all_hosts_fail [OF assms that]
    by (simp add: getAccessibleImageUrl_def)
  ultimately show ?thesis by blast
qed

theorem publisher_never_raises_on_readable_file_witness:
  "getAccessibleImageUrl (worldOf flakyHosts) ''/app/data/uploads/car.png''
     = Inr (Base64Marker ''data:image/jpeg;base64,TWFu'')"
proof -
  have r: "readFile (firstUpload (worldOf flakyHosts)) ''/app/data/uploads/car.png'' = Inr [0x4D, 0x61, 0x6E]"
    by (simp add: worldOf_def flakyHosts_def)
  have a: "imgbbAttempt (firstUpload (worldOf flakyHosts)) (toBase64 [0x4D, 0x61, 0x6E]) = None"
    by (simp add: worldOf_def flakyHosts_def imgbbAttempt_def statusOk_def)
  have b: "imgcdnAttempt (firstUpload (worldOf flakyHosts)) [0x4D, 0x61, 0x6E] = None"
    by (simp add: worldOf_def flakyHosts_def imgcdnAttempt_def)
  have c: "toBase64 [0x4D, 0x61, 0x6E] = ''TWFu''"
    by (simp add: base64Digit_def base64Alphabet_def)
  from publisher_never_raises_on_readable_file [OF r] a b c show ?thesis by simp
qed

section \<open>Properties of the Thumbnail Archiver\<close>

lemma downloadLoop_success:
  "retryCount < maxRetries \<Longrightarrow> primaryGet env retryCount = Inr reply \<Longrightarrow> reply_status reply = 200 \<Longrightarrow>
   downloadLoop env imageUrl retryCount response trace
     = (Inr (Some reply), trace @ [PrimaryRequest retryCount])"
  by (subst downloadLoop.simps) simp

lemma downloadLoop_retry:
  assumes "retryCount + 1 < maxRetries" "attemptFails env imageUrl retryCount"
  shows "\<exists>response1 events.
           downloadLoop env imageUrl retryCount response trace
             = downloadLoop env imageUrl (retryCount + 1) response1 (trace @ events)
         \<and> filter isPrimaryRequest events = [PrimaryRequest retryCount]
         \<and> filter isSleep events = [Sleep 2000]"
proof (cases "primaryGet env retryCount")
  case (Inr reply)
  with assms have "downloadLoop env imageUrl retryCount response trace
      = downloadLoop env imageUrl (retryCount + 1) (Some reply)
          (trace @ [PrimaryRequest retryCount, Sleep 2000])"
    by (subst downloadLoop.simps) (simp add: attemptFails_def)
  then show ?thesis by force
next
  case (Inl thrown)
  obtain response1 broke requests
    where alt: "tryAlternative env imageUrl retryCount response = (response1, broke, requests)"
    by (cases "tryAlternative env imageUrl retryCount response") auto
  from assms(2) Inl alt have nb: "\<not> broke"
    by (auto simp: attemptFails_def tryAlternative_def split: if_splits sum.splits)
  from alt have req: "filter isPrimaryRequest requests = []" "filter isSleep requests = []"
    by (auto simp: tryAlternative_def split: if_splits sum.splits)
  from assms(1) Inl alt nb have "downloadLoop env imageUrl retryCount response trace
      = downloadLoop env imageUrl (retryCount + 1) response1
          (trace @ PrimaryRequest retryCount # requests @ [Sleep 2000])"
    by (subst downloadLoop.simps) simp
  with req show ?thesis by force
qed

lemma downloadLoop_last_fails:
  assumes "retryCount + 1 = maxRetries" "attemptFails env imageUrl retryCount"
  shows "\<exists>events. (downloadLoop env imageUrl retryCount response trace
                      = (Inl ''Max retries reached for download'', trace @ events)
                   \<or> (\<exists>reply. downloadLoop env imageUrl retryCount response trace
                          = (Inr (Some reply), trace @ events) \<and> reply_status reply \<noteq> 200))"
proof (cases "primaryGet env retryCount")
  case (Inr reply)
  with assms have "downloadLoop env imageUrl retryCount response trace
      = downloadLoop env imageUrl (retryCount + 1) (Some reply)
          (trace @ [PrimaryRequest retryCount, Sleep 2000])"
    by (subst downloadLoop.simps) (simp add: attemptFails_def)
  also have "\<dots> = (Inr (Some reply), trace @ [PrimaryRequest retryCount, Sleep 2000])"
    using assms(1) by (subst downloadLoop.simps) simp
  finally show ?thesis using Inr assms(2) by (auto simp: attemptFails_def)
next
  case (Inl thrown)
  obtain response1 broke requests
    where alt: "tryAlternative env imageUrl retryCount response = (response1, broke, requests)"
    by (cases "tryAlternative env imageUrl retryCount response") auto
  from assms(2) Inl alt have nb: "\<not> broke"
    by (auto simp: attemptFails_def tryAlternative_def split: if_splits sum.splits)
  from assms(1) Inl alt nb have "downloadLoop env imageUrl retryCount response trace
      = (Inl ''Max retries reached for download'', trace @ PrimaryRequest retryCount # requests)"
    by (subst downloadLoop.simps) simp
  then show ?thesis by blast
qed


lemma tryAlternative_requests:
  "tryAlternative env imageUrl retryCount response = (response1, broke, requests) \<Longrightarrow>
   filter isPrimaryRequest requests = [] \<and> filter isSleep requests = []"
  by (auto simp: tryAlternative_def split: if_splits sum.splits)

lemma downloadLoop_primary_bound:
  "length (filter isPrimaryRequest (snd (downloadLoop env imageUrl retryCount response trace)))
     \<le> length (filter isPrimaryRequest trace) + (maxRetries - retryCount)"
proof (induction env imageUrl retryCount response trace rule: downloadLoop.induct)
  case (1 env imageUrl retryCount response trace)
  show ?case
  proof (cases "retryCount < maxRetries")
    case False
    then show ?thesis by (subst downloadLoop.simps) simp
  next
    case True
    show ?thesis
    proof (cases "primaryGet env retryCount")
      case (Inr reply)
      show ?thesis
      proof (cases "reply_status reply = 200")
        case ok: True
        with True Inr show ?thesis by (subst downloadLoop.simps) simp
      next
        case bad: False
        from "1.IH"(2) [OF True Inr bad] True Inr bad show ?thesis
          by (subst downloadLoop.simps) simp
      qed
    next
      case (Inl thrown)
      obtain response1 broke requests
        where alt: "tryAlternative env imageUrl retryCount response = (response1, broke, requests)"
        by (cases "tryAlternative env imageUrl retryCount response") auto
      note req = tryAlternative_requests [OF alt]
      show ?thesis
      proof (cases "\<not> broke \<and> retryCount + 1 < maxRetries")
        case True
        then have nb: "\<not> broke" and more: "retryCount + 1 < maxRetries" by auto
        from "1.IH"(1) [OF \<open>retryCount < maxRetries\<close> Inl alt [symmetric] refl nb more]
        show ?thesis
          using \<open>retryCount < maxRetries\<close> Inl alt nb more req
          by (subst downloadLoop.simps) simp
      next
        case False
        then show ?thesis
          using \<open>retryCount < maxRetries\<close> Inl alt req
          by (subst downloadLoop.simps) auto
      qed
    qed
  qed
qed


lemma downloadLoop_fails_twice_then_succeeds:
  assumes "attemptFails env imageUrl 0" "attemptFails env imageUrl 1"
    "primaryGet env 2 = Inr reply" "reply_status reply = 200"
  shows "\<exists>trace. downloadLoop env imageUrl 0 None [] = (Inr (Some reply), trace)
           \<and> filter isPrimaryRequest trace = [PrimaryRequest 0, PrimaryRequest 1, PrimaryRequest 2]
           \<and> filter isSleep trace = [Sleep 2000, Sleep 2000]"
proof -
  from downloadLoop_retry [of 0 env imageUrl None "[]"] assms(1)
  obtain r1 e1 where s1: "downloadLoop env imageUrl 0 None [] = downloadLoop env imageUrl 1 r1 e1"
    and p1: "filter isPrimaryRequest e1 = [PrimaryRequest 0]" and z1: "filter isSleep e1 = [Sleep 2000]"
    by (auto simp: maxRetries_def)
  from downloadLoop_retry [of 1 env imageUrl r1 e1] assms(2)
  obtain r2 e2 where s2: "downloadLoop env imageUrl 1 r1 e1 = downloadLoop env imageUrl 2 r2 (e1 @ e2)"
    and p2: "filter isPrimaryRequest e2 = [PrimaryRequest 1]" and z2: "filter isSleep e2 = [Sleep 2000]"
    by (auto simp: maxRetries_def numeral_2_eq_2)
  have s3: "downloadLoop env imageUrl 2 r2 (e1 @ e2) = (Inr (Some reply), (e1 @ e2) @ [PrimaryRequest 2])"
    using assms(3,4) by (intro downloadLoop_success) (simp_all add: maxRetries_def)
  show ?thesis
    unfolding s1 s2 s3 using p1 p2 z1 z2 by simp
qed

lemma downloadLoop_fails_three_times:
  assumes "attemptFails env imageUrl 0" "attemptFails env imageUrl 1" "attemptFails env imageUrl 2"
  shows "\<exists>trace. downloadLoop env imageUrl 0 None [] = (Inl ''Max retries reached for download'', trace)
           \<or> (\<exists>reply. downloadLoop env imageUrl 0 None [] = (Inr (Some reply), trace)
                  \<and> reply_status reply \<noteq> 200)"
proof -
  from downloadLoop_retry [of 0 env imageUrl None "[]"] assms(1)
  obtain r1 e1 where s1: "downloadLoop env imageUrl 0 None [] = downloadLoop env imageUrl 1 r1 e1"
    by (auto simp: maxRetries_def)
  from downloadLoop_retry [of 1 env imageUrl r1 e1] assms(2)
  obtain r2 e2 where s2: "downloadLoop env imageUrl 1 r1 e1 = downloadLoop env imageUrl 2 r2 (e1 @ e2)"
    by (auto simp: maxRetries_def numeral_2_eq_2)
  from downloadLoop_last_fails [of 2 env imageUrl r2 "e1 @ e2"] assms(3)
  show ?thesis unfolding s1 s2 by (auto simp: maxRetries_def)
qed

text \<open>
  The archiver past the early return at its head (the test for a URL that is taken
  to be local already does not hold). It makes at most 3 downloads from the URL (a
  round whose download throws may add one request to the substituted host name).
  When the first two rounds fail and the third download answers 200, it has made
  exactly these three downloads, with a wait of 2000 ms after each of the two
  failures; a local URL is returned only when the file written holds the downloaded
  bytes and these are not empty, and it is returned whenever the write succeeds and
  the bytes are not empty. When all three rounds fail, the archiver raises and
  writes nothing.
\<close>

lemma archiver_retry:
  assumes dir: "ensureDirectory env = Inr ()"
    and remote: "\<not> (includesStr imageUrl ''ThumbnailImages''
                    \<and> localFileExists fs (thumbnailDir env) (lastPart imageUrl))"
    and run: "downloadAndSaveImage env fs imageUrl = (result, fs', trace)"
  shows "length (filter isPrimaryRequest trace) \<le> 3
       \<and> (attemptFails env imageUrl 0 \<and> attemptFails env imageUrl 1
            \<and> primaryGet env 2 = Inr reply \<and> reply_status reply = 200 \<longrightarrow>
              filter isPrimaryRequest trace = [PrimaryRequest 0, PrimaryRequest 1, PrimaryRequest 2]
            \<and> filter isSleep trace = [Sleep 2000, Sleep 2000]
            \<and> (\<forall>localUrl. result = Inr localUrl \<longrightarrow>
                   localUrl = ''http://localhost:5000/ThumbnailImages/'' @ thumbnailName env
                 \<and> fs' (thumbnailDir env @ ''/'' @ thumbnailName env) = Some (reply_data reply)
                 \<and> length (reply_data reply) > 0)
            \<and> (writeFails env = None \<and> length (reply_data reply) > 0 \<longrightarrow>
                   result = Inr (''http://localhost:5000/ThumbnailImages/'' @ thumbnailName env)))
       \<and> (attemptFails env imageUrl 0 \<and> attemptFails env imageUrl 1
            \<and> attemptFails env imageUrl 2 \<longrightarrow> (\<exists>message. result = Inl message) \<and> fs' = fs)"
proof (intro conjI impI)
  obtain r t where loop: "downloadLoop env imageUrl 0 None [] = (r, t)"
    by (cases "downloadLoop env imageUrl 0 None []") auto
  from run dir remote loop have "trace = t"
    by (auto simp: downloadAndSaveImage_def split: sum.splits option.splits if_splits prod.splits)
  with downloadLoop_primary_bound [of env imageUrl 0 None "[]"] loop
  show "length (filter isPrimaryRequest trace) \<le> 3" by (simp add: maxRetries_def)
next
  assume "attemptFails env imageUrl 0 \<and> attemptFails env imageUrl 1
            \<and> primaryGet env 2 = Inr reply \<and> reply_status reply = 200"
  with downloadLoop_fails_twice_then_succeeds [of env imageUrl reply]
  obtain t where loop: "downloadLoop env imageUrl 0 None [] = (Inr (Some reply), t)"
    and p: "filter isPrimaryRequest t = [PrimaryRequest 0, PrimaryRequest 1, PrimaryRequest 2]"
    and z: "filter isSleep t = [Sleep 2000, Sleep 2000]" and ok: "reply_status reply = 200"
    by blast
  from run dir remote loop ok
  have saved: "saveDownloaded env fs reply = (result, fs')" and t: "trace = t"
    by (auto simp: downloadAndSaveImage_def split: prod.splits)
  from p t show "filter isPrimaryRequest trace = [PrimaryRequest 0, PrimaryRequest 1, PrimaryRequest 2]"
    by simp
  from z t show "filter isSleep trace = [Sleep 2000, Sleep 2000]" by simp
  from saved show "\<forall>localUrl. result = Inr localUrl \<longrightarrow>
                   localUrl = ''http://localhost:5000/ThumbnailImages/'' @ thumbnailName env
                 \<and> fs' (thumbnailDir env @ ''/'' @ thumbnailName env) = Some (reply_data reply)
                 \<and> length (reply_data reply) > 0"
    by (auto simp: saveDownloaded_def Let_def split: option.splits if_splits)
  assume "writeFails env = None \<and> length (reply_data reply) > 0"
  with saved show "result = Inr (''http://localhost:5000/ThumbnailImages/'' @ thumbnailName env)"
    by (auto simp: saveDownloaded_def Let_def)
next
  assume "attemptFails env imageUrl 0 \<and> attemptFails env imageUrl 1 \<and> attemptFails env imageUrl 2"
  with downloadLoop_fails_three_times [of env imageUrl]
  obtain t where "downloadLoop env imageUrl 0 None [] = (Inl ''Max retries reached for download'', t)
           \<or> (\<exists>reply. downloadLoop env imageUrl 0 None [] = (Inr (Some reply), t)
                  \<and> reply_status reply \<noteq> 200)"
    by blast
  with run dir remote show "\<exists>message. result = Inl message" and "fs' = fs"
    by (auto simp: downloadAndSaveImage_def)
qed

lemma thumbnailName_thirdTimeLucky:
  "thumbnailName thirdTimeLucky = ''thumbnail_1700000000000_k3x9qz.png''"
  by (simp add: thumbnailName_def thirdTimeLucky_def showNat.simps digitChar_def)

lemma archiver_retry_third_time_lucky:
  "fst (downloadAndSaveImage thirdTimeLucky Map.empty ''https://replicate.delivery/pbxt/out-0.png'')
     = Inr ''http://localhost:5000/ThumbnailImages/thumbnail_1700000000000_k3x9qz.png''
   \<and> fst (snd (downloadAndSaveImage thirdTimeLucky Map.empty ''https://replicate.delivery/pbxt/out-0.png''))
        ''/app/data/thumbnails/thumbnail_1700000000000_k3x9qz.png'' = Some [0x4D, 0x61, 0x6E]
   \<and> filter isPrimaryRequest
        (snd (snd (downloadAndSaveImage thirdTimeLucky Map.empty ''https://replicate.delivery/pbxt/out-0.png'')))
        = [PrimaryRequest 0, PrimaryRequest 1, PrimaryRequest 2]
   \<and> filter isSleep
        (snd (snd (downloadAndSaveImage thirdTimeLucky Map.empty ''https://replicate.delivery/pbxt/out-0.png'')))
        = [Sleep 2000, Sleep 2000]"
proof -
  let ?url = "''https://replicate.delivery/pbxt/out-0.png''"
  let ?out = "downloadAndSaveImage thirdTimeLucky Map.empty ?url"
  let ?reply = "\<lparr>reply_status = 200, reply_data = [0x4D, 0x61, 0x6E]\<rparr>"
  have dir: "ensureDirectory thirdTimeLucky = Inr ()" by (simp add: thirdTimeLucky_def)
  have remote: "\<not> (includesStr ?url ''ThumbnailImages''
                    \<and> localFileExists Map.empty (thumbnailDir thirdTimeLucky) (lastPart ?url))"
    by simp
  have run: "?out = (fst ?out, fst (snd ?out), snd (snd ?out))" by simp
  have delivery: "includesStr ?url ''replicate.delivery''" by simp
  have f0: "attemptFails thirdTimeLucky ?url 0"
    using delivery by (simp add: attemptFails_def tryAlternative_def thirdTimeLucky_def)
  have f1: "attemptFails thirdTimeLucky ?url 1"
    using delivery by (simp add: attemptFails_def tryAlternative_def thirdTimeLucky_def)
  have ok: "primaryGet thirdTimeLucky 2 = Inr ?reply" "reply_status ?reply = 200"
    by (simp_all add: thirdTimeLucky_def)
  have w: "writeFails thirdTimeLucky = None" "thumbnailDir thirdTimeLucky = ''/app/data/thumbnails''"
    by (simp_all add: thirdTimeLucky_def)
  have nonempty: "length (reply_data ?reply) > 0" by simp
  note main = archiver_retry [OF dir remote run, of ?reply, THEN conjunct2, THEN conjunct1,
      rule_format, OF conjI [OF f0 conjI [OF f1 conjI [OF ok]]]]
  from main have p: "filter isPrimaryRequest (snd (snd ?out))
        = [PrimaryRequest 0, PrimaryRequest 1, PrimaryRequest 2]" by (rule conjunct1)
  from main have z: "filter isSleep (snd (snd ?out)) = [Sleep 2000, Sleep 2000]"
    by (elim conjE)
  from main w(1) nonempty have r: "fst ?out
      = Inr (''http://localhost:5000/ThumbnailImages/'' @ thumbnailName thirdTimeLucky)"
    by (elim conjE) (erule mp, rule conjI)
  from main r have d: "fst (snd ?out) (thumbnailDir thirdTimeLucky @ ''/'' @ thumbnailName thirdTimeLucky)
      = Some (reply_data ?reply)"
    by (elim conjE) blast
  from p z r d show ?thesis
    unfolding w(2) thumbnailName_thirdTimeLucky by simp
qed

text \<open>
  The early return takes every URL that contains the text \<open>ThumbnailImages\<close> for a
  local one, and its test for the file, made on what follows the last slash, holds
  for the thumbnail directory itself when nothing follows the last slash.
\<close>

lemma early_return_on_trailing_slash:
  "ensureDirectory env = Inr () \<Longrightarrow> includesStr (prefix @ ''/'') ''ThumbnailImages'' \<Longrightarrow>
   downloadAndSaveImage env fs (prefix @ ''/'') = (Inr (prefix @ ''/''), fs, [])"
  by (simp add: downloadAndSaveImage_def lastPart_def localFileExists_def)

text \<open>
  Claim C7, at the input where the code departs from it: the remote output URL
  \<open>https://replicate.delivery/ThumbnailImages/\<close>, with every download from it
  failing and nothing on the disk. The claim has the archiver download with up to
  three attempts and raise when no attempt yields the bytes. The archiver makes no
  download at all, writes no file, checks no size and does not raise: it returns the
  remote URL as if it were the URL of an archived file.
\<close>

theorem archiver_returns_url_without_download:
  "downloadAndSaveImage allDown Map.empty ''https://replicate.delivery/ThumbnailImages/''
     = (Inr ''https://replicate.delivery/ThumbnailImages/'', Map.empty, [])
   \<and> attemptFails allDown ''https://replicate.delivery/ThumbnailImages/'' 0
   \<and> attemptFails allDown ''https://replicate.delivery/ThumbnailImages/'' 1
   \<and> attemptFails allDown ''https://replicate.delivery/ThumbnailImages/'' 2"
  by (simp add: downloadAndSaveImage_def lastPart_def localFileExists_def allDown_def
      thirdTimeLucky_def attemptFails_def tryAlternative_def)

section \<open>Properties of the thumbnail metadata file\<close>

text \<open>
  The save loop of \<open>POST /api/thumbnails\<close> only accepts content that parses.
\<close>

lemma post_save_validates:
  "savePostedThumbnails parse writeFile data saveRetries = Inr content \<Longrightarrow> saveRetries < 3 \<Longrightarrow>
   parse content \<noteq> None"
proof (induction parse writeFile data saveRetries rule: savePostedThumbnails.induct)
  case (1 parse writeFile data saveRetries)
  note lt = \<open>saveRetries < 3\<close>
  note run = "1.prems"(1) [unfolded savePostedThumbnails.simps [of parse writeFile data saveRetries]]
  show ?case
  proof (cases "writeFile saveRetries data")
    case (Inl thrown)
    with run lt have more: "\<not> saveRetries + 1 \<ge> 3"
      and rec: "savePostedThumbnails parse writeFile data (saveRetries + 1) = Inr content"
      by (auto split: if_splits)
    from "1.IH"(1) [OF lt Inl more rec] more show ?thesis by simp
  next
    case (Inr verification)
    show ?thesis
    proof (cases "parse verification")
      case (Some parsed)
      with run lt Inr show ?thesis by auto
    next
      case None
      with run lt Inr have more: "\<not> saveRetries + 1 \<ge> 3"
        and rec: "savePostedThumbnails parse writeFile data (saveRetries + 1) = Inr content"
        by (auto split: if_splits)
      from "1.IH"(2) [OF lt Inr None more rec] more show ?thesis by simp
    qed
  qed
qed

text \<open>
  \<open>DELETE /api/thumbnails/:id\<close> answers 200 with whatever its write left in the
  file: the content is not read back and not parsed.
\<close>

lemma delete_writes_without_validation:
  "parse data = Some (JArr thumbnails) \<Longrightarrow> \<not> list_ex isNullish thumbnails \<Longrightarrow>
   writeFile 0 (stringify (JArr (filter (\<lambda>t. getProp t ''url'' \<noteq> JStr thumbnailUrl) thumbnails)))
     = Inr content \<Longrightarrow>
   deleteThumbnail parse stringify writeFile (Some data) thumbnailUrl
     = (Json 200 (JObj [(''message'', JStr ''Thumbnail deleted successfully'')]), Some content)"
  by (simp add: deleteThumbnail_def readThumbnails_def)

text \<open>
  Claim C5, at the input where the code departs from it: the metadata file is
  missing. \<open>GET /api/thumbnails\<close> and \<open>DELETE /api/thumbnails/:id\<close> answer 500, and
  \<open>cleanupThumbnails\<close> returns without writing; only \<open>POST /api/thumbnails\<close> goes
  on with the empty list.
\<close>

theorem missing_metadata_file_fails_readers:
  "getThumbnails parse None = Json 500 (errorBody ''Failed to fetch thumbnails'')
   \<and> deleteThumbnail parse stringify writeFile None thumbnailUrl
       = (Json 500 (errorBody ''Failed to delete thumbnail''), None)
   \<and> cleanupThumbnailsRead parse None = None
   \<and> postThumbnailsRead parse None = JArr []"
  by (simp add: getThumbnails_def deleteThumbnail_def cleanupThumbnailsRead_def
      postThumbnailsRead_def readThumbnails_def)

section \<open>Properties of \<open>updatePredictionResult\<close> on the event loop\<close>

lemma drain_step:
  "microtasks s = job # rest \<Longrightarrow> drain s = drain (runJob job (s\<lparr>microtasks := rest\<rparr>))"
  by (subst drain.simps) simp

lemma drain_done: "microtasks s = [] \<Longrightarrow> drain s = Some s"
  by (subst drain.simps) simp

lemma drain_update_turns:
  "turns updateFn = n \<Longrightarrow>
   microtasks s = [AfterUpdateFn caller predictionId newLock currentResult updateFn] \<Longrightarrow>
   drain s = drain (s\<lparr>microtasks :=
                 [AfterUpdateFn caller predictionId newLock currentResult (updateFn\<lparr>turns := 0\<rparr>)]\<rparr>)"
proof (induction n arbitrary: updateFn s)
  case 0
  then have u: "updateFn\<lparr>turns := 0\<rparr> = updateFn" by (cases updateFn) simp
  show ?case unfolding u "0.prems"(2) [symmetric] by simp
next
  case (Suc n)
  let ?next = "s\<lparr>microtasks :=
      [AfterUpdateFn caller predictionId newLock currentResult (updateFn\<lparr>turns := n\<rparr>)]\<rparr>"
  have "drain s = drain ?next"
    using Suc.prems by (simp add: drain_step)
  also have "\<dots> = drain (?next\<lparr>microtasks :=
      [AfterUpdateFn caller predictionId newLock currentResult (updateFn\<lparr>turns := n, turns := 0\<rparr>)]\<rparr>)"
    by (rule Suc.IH) simp_all
  finally show ?case by simp
qed

text \<open>
  One update on a loop at rest runs to its end and leaves the store that the
  function \<open>updatePredictionResult\<close> of the Result Store section gives: that
  function is the event loop with a single call under way.
\<close>

lemma single_update_is_sequential:
  "\<exists>s. drain (callUpdate caller predictionId updateFn (idle st)) = Some s
       \<and> storeOf s = updatePredictionResult st predictionId (compute updateFn)
       \<and> microtasks s = []"
proof -
  define s0 where "s0 = callUpdate caller predictionId updateFn (idle st)"
  define st1 where "st1 =
    (if predictionLocks st predictionId = None
     then st\<lparr>predictionLocks := (predictionLocks st)(predictionId \<mapsto> promiseCount st),
             promiseCount := promiseCount st + 1\<rparr>
     else st)"
  define current where "current =
    (case predictionResults st1 predictionId of Some r \<Rightarrow> r | None \<Rightarrow> defaultResult)"
  have q0: "microtasks s0 = [AfterLock caller predictionId updateFn]"
    and store0: "storeOf s0 = st1" and h0: "history s0 = []"
    and f0: "fulfilled s0 = (\<lambda>p. True)" and r0: "reactions s0 = (\<lambda>p. [])"
    by (auto simp: s0_def st1_def callUpdate_def idle_def newPromise_def awaitPromise_def
        storeOf_def Let_def fun_eq_iff split: option.splits)
  define s1 where "s1 = runJob (AfterLock caller predictionId updateFn) (s0\<lparr>microtasks := []\<rparr>)"
  have d0: "drain s0 = drain s1" unfolding s1_def using q0 by (rule drain_step)
  from store0 have p0: "predictionResults s0 = predictionResults st1"
    "predictionLocks s0 = predictionLocks st1" "promiseCount s0 = promiseCount st1"
    by (auto simp: storeOf_def)
  have q1: "microtasks s1 = [AfterUpdateFn caller predictionId (promiseCount st1) current updateFn]"
    and res1: "predictionResults s1 = predictionResults st1"
    and locks1: "predictionLocks s1 = (predictionLocks st1)(predictionId \<mapsto> promiseCount st1)"
    and count1: "promiseCount s1 = promiseCount st1 + 1"
    and react1: "reactions s1 (promiseCount st1) = [AfterNewLock caller]"
    by (simp_all add: s1_def newPromise_def awaitPromise_def Let_def p0 q0 f0 r0 current_def)
  define s2 where "s2 = s1\<lparr>microtasks :=
      [AfterUpdateFn caller predictionId (promiseCount st1) current (updateFn\<lparr>turns := 0\<rparr>)]\<rparr>"
  have d1: "drain s1 = drain s2" unfolding s2_def using q1 by (intro drain_update_turns) simp_all
  define s3 where "s3 = runJob
      (AfterUpdateFn caller predictionId (promiseCount st1) current (updateFn\<lparr>turns := 0\<rparr>))
      (s2\<lparr>microtasks := []\<rparr>)"
  have d2: "drain s2 = drain s3" unfolding s3_def by (rule drain_step) (simp add: s2_def)
  have q3: "microtasks s3 = [AfterNewLock caller]"
    and res3: "predictionResults s3 =
        (case compute updateFn current of
           Inl thrown \<Rightarrow> predictionResults st1
         | Inr updatedResult \<Rightarrow> (predictionResults st1)(predictionId \<mapsto> updatedResult))"
    and locks3: "predictionLocks s3 = (predictionLocks st1)(predictionId \<mapsto> promiseCount st1)"
    and count3: "promiseCount s3 = promiseCount st1 + 1"
    by (simp_all add: s3_def s2_def resolvePromise_def react1 res1 locks1 count1 split: sum.splits)
  define s4 where "s4 = runJob (AfterNewLock caller) (s3\<lparr>microtasks := []\<rparr>)"
  have d3: "drain s3 = drain s4" unfolding s4_def using q3 by (rule drain_step)
  have d4: "drain s4 = Some s4" by (rule drain_done) (simp add: s4_def)
  have "storeOf s4 = updatePredictionResult st predictionId (compute updateFn)"
    by (simp add: s4_def storeOf_def res3 locks3 count3 updatePredictionResult_def Let_def
        st1_def [symmetric] current_def [symmetric] split: sum.splits)
  moreover have "microtasks s4 = []" by (simp add: s4_def)
  ultimately show ?thesis
    unfolding s0_def [symmetric] d0 d1 d2 d3 d4 by blast
qed

text \<open>
  The lock does its work for an update that is issued once the earlier update has
  passed its \<open>await lock\<close>: B then waits for the lock that A has stored, its update
  function is called with the entry A has written, and both writes are there.
\<close>

lemma update_issued_after_start_is_serialized:
  "map_option (\<lambda>s. (predictionResults s ''job1'', history s))
     (drain (callUpdate 2 ''job1'' updateB
        (runJob (AfterLock 1 ''job1'' updateA)
           ((callUpdate 1 ''job1'' updateA (idle emptyStore))\<lparr>microtasks := []\<rparr>))))
   = Some
       (Some (defaultResult\<lparr>res_imageUrl := JStr ''https://replicate.delivery/out.png'',
                              res_status := ''completed''\<rparr>),
        [UpdateFnCalled 1 defaultResult,
         ResultStored 1 (defaultResult\<lparr>res_imageUrl := JStr ''https://replicate.delivery/out.png''\<rparr>),
         UpdateReturned 1,
         UpdateFnCalled 2 (defaultResult\<lparr>res_imageUrl := JStr ''https://replicate.delivery/out.png''\<rparr>),
         ResultStored 2 (defaultResult\<lparr>res_imageUrl := JStr ''https://replicate.delivery/out.png'',
                              res_status := ''completed''\<rparr>),
         UpdateReturned 2])"
  by (simp add: callUpdate_def idle_def emptyStore_def newPromise_def
      awaitPromise_def resolvePromise_def drain.simps updateA_def updateB_def Let_def)

text \<open>
  Claim C2, at the input where the code departs from it: update A, which takes two
  turns, and update B, which takes none, are issued for the same id one right after
  the other. Both calls read the same resolved lock and wait for it, so B does not
  wait for the lock that A stores later. The update function of B is called before
  the write of A is stored, B is stored and returns first, and A then overwrites
  the entry with what it computed from the entry it had read: the status that B
  wrote is lost.
\<close>

theorem concurrent_updates_interleave:
  "map_option (\<lambda>s. (predictionResults s ''job1'', history s)) twoConcurrentUpdates
     = Some
         (Some (defaultResult\<lparr>res_imageUrl := JStr ''https://replicate.delivery/out.png''\<rparr>),
          [UpdateFnCalled 1 defaultResult,
           UpdateFnCalled 2 defaultResult,
           ResultStored 2 (defaultResult\<lparr>res_status := ''completed''\<rparr>),
           UpdateReturned 2,
           ResultStored 1 (defaultResult\<lparr>res_imageUrl := JStr ''https://replicate.delivery/out.png''\<rparr>),
           UpdateReturned 1])"
  by (simp add: twoConcurrentUpdates_def callUpdate_def idle_def emptyStore_def newPromise_def
      awaitPromise_def resolvePromise_def drain.simps updateA_def updateB_def Let_def)

end
